theory Spec2Isabelle
  imports Complex_Main "HOL-Library.Sublist"
begin

unbundle bit_operations_syntax

section \<open>Strings\<close>

text \<open>
  A Go string is a sequence of bytes; it is modelled as \<^typ>\<open>string\<close>, a list of
  8-bit characters. The functions of package \<open>strings\<close> that the evaluator calls are
  written out on byte strings.
\<close>

text \<open>\<open>strings.Contains(s, substr)\<close>: \<open>substr\<close> occurs in \<open>s\<close>; the empty
  string occurs in every string.\<close>

fun Contains :: "string \<Rightarrow> string \<Rightarrow> bool" where
  "Contains [] substr = (substr = [])"
| "Contains (c # s) substr = (prefix substr (c # s) \<or> Contains s substr)"

text \<open>\<open>strings.Split(s, sep)\<close> for a separator of one byte (the evaluator only
  splits at \<open>","\<close>): one more item than there are separators, so the empty string
  gives one empty item.\<close>

fun Split :: "string \<Rightarrow> char \<Rightarrow> string list" where
  "Split [] sep = [[]]"
| "Split (c # s) sep =
     (if c = sep then [] # Split s sep
      else (case Split s sep of item # items \<Rightarrow> (c # item) # items | [] \<Rightarrow> [[c]]))"

text \<open>\<open>strings.Replace(s, old, new, -1)\<close> for \<open>old\<close> and \<open>new\<close> of one byte:
  every occurrence is replaced.\<close>

definition Replace :: "string \<Rightarrow> char \<Rightarrow> char \<Rightarrow> string" where
  "Replace s old new = map (\<lambda>c. if c = old then new else c) s"

text \<open>
  \<open>strings.TrimSpace\<close> removes the leading and the trailing white space, as Unicode
  defines it, from a UTF-8 string. \<open>whiteSpace\<close> lists the UTF-8 encodings of the code
  points with the White_Space property: the six of ASCII, U+0085, U+00A0, U+1680,
  U+2000 to U+200A, U+2028, U+2029, U+202F, U+205F and U+3000. A byte that starts none
  of these encodings (also a byte of invalid UTF-8) ends the trimming.
\<close>

definition whiteSpace :: "string list" where
  "whiteSpace =
     map (\<lambda>c. [c]) [CHR 0x09, CHR 0x0A, CHR 0x0B, CHR 0x0C, CHR 0x0D, CHR 0x20] @
     [[CHR 0xC2, CHR 0x85], [CHR 0xC2, CHR 0xA0], [CHR 0xE1, CHR 0x9A, CHR 0x80]] @
     map (\<lambda>c. [CHR 0xE2, CHR 0x80, c])
       [CHR 0x80, CHR 0x81, CHR 0x82, CHR 0x83, CHR 0x84, CHR 0x85, CHR 0x86, CHR 0x87,
        CHR 0x88, CHR 0x89, CHR 0x8A, CHR 0xA8, CHR 0xA9, CHR 0xAF] @
     [[CHR 0xE2, CHR 0x81, CHR 0x9F], [CHR 0xE3, CHR 0x80, CHR 0x80]]"

text \<open>The number of bytes of the white-space character at the start of \<open>s\<close>, 0 when
  \<open>s\<close> does not start with one; \<open>ws\<close> is the list of encodings.\<close>

definition spaceWidth :: "string list \<Rightarrow> string \<Rightarrow> nat" where
  "spaceWidth ws s = (case find (\<lambda>p. prefix p s) ws of None \<Rightarrow> 0 | Some p \<Rightarrow> length p)"

function TrimLeftIn :: "string list \<Rightarrow> string \<Rightarrow> string" where
  "TrimLeftIn ws s =
     (if spaceWidth ws s = 0 then s else TrimLeftIn ws (drop (spaceWidth ws s) s))"
  by pat_completeness auto

lemma spaceWidth_le: "spaceWidth ws s \<le> length s"
  by (auto simp: spaceWidth_def find_Some_iff prefix_def split: option.splits)

termination TrimLeftIn
proof (relation "measure (\<lambda>(ws, s). length s)")
  show "wf (measure (\<lambda>(ws, s). length s))" by simp
next
  fix ws :: "string list" and s :: string
  assume "spaceWidth ws s \<noteq> 0"
  moreover have "spaceWidth ws s \<le> length s" by (rule spaceWidth_le)
  ultimately show "((ws, drop (spaceWidth ws s) s), (ws, s)) \<in> measure (\<lambda>(ws, s). length s)"
    by simp
qed

declare TrimLeftIn.simps [simp del]

text \<open>Trimming on the right strips the same encodings from the end: the reversed
  encodings from the start of the reversed string.\<close>

definition TrimSpace :: "string \<Rightarrow> string" where
  "TrimSpace s = rev (TrimLeftIn (map rev whiteSpace) (rev (TrimLeftIn whiteSpace s)))"


section \<open>SHA-1 and hexadecimal encoding\<close>

text \<open>
  \<open>crypto/sha1\<close>, as FIPS 180 defines it. A 32-bit word is an \<^typ>\<open>int\<close> in
  \<open>[0, 2^32)\<close> with the wrap-around written out, and a byte is an \<^typ>\<open>int\<close> in
  \<open>[0, 256)\<close>.
\<close>

definition rotl :: "nat \<Rightarrow> int \<Rightarrow> int" where
  "rotl n x = (x * 2 ^ n) mod 4294967296 + x div 2 ^ (32 - n)"

definition add32 :: "int \<Rightarrow> int \<Rightarrow> int" where
  "add32 x y = (x + y) mod 4294967296"

definition not32 :: "int \<Rightarrow> int" where
  "not32 x = 4294967295 - x"

text \<open>The message, the byte 0x80, zero bytes up to 56 modulo 64, and the length of the
  message in bits as 8 bytes, most significant first.\<close>

definition sha1_pad :: "int list \<Rightarrow> int list" where
  "sha1_pad m =
     m @ [128] @ replicate (nat ((55 - int (length m)) mod 64)) 0 @
     map (\<lambda>i. (8 * int (length m)) div 256 ^ i mod 256) [7, 6, 5, 4, 3, 2, 1, 0]"

text \<open>The bytes of a block as big-endian 32-bit words.\<close>

fun be32 :: "int list \<Rightarrow> int list" where
  "be32 (a # b # c # d # bs) = (((a * 256 + b) * 256 + c) * 256 + d) # be32 bs"
| "be32 bs = []"

text \<open>The message schedule, latest word first: \<open>w[i] = rotl 1 (w[i-3] XOR w[i-8] XOR
  w[i-14] XOR w[i-16])\<close>.\<close>

fun schedule :: "nat \<Rightarrow> int list \<Rightarrow> int list" where
  "schedule 0 w = w"
| "schedule (Suc n) w = schedule n (rotl 1 (w ! 2 XOR w ! 7 XOR w ! 13 XOR w ! 15) # w)"

datatype stage = Ch | Parity1 | Maj | Parity2

fun sha1_f :: "stage \<Rightarrow> int \<Rightarrow> int \<Rightarrow> int \<Rightarrow> int" where
  "sha1_f Ch b c d = (b AND c) OR (not32 b AND d)"
| "sha1_f Parity1 b c d = b XOR c XOR d"
| "sha1_f Maj b c d = (b AND c) OR (b AND d) OR (c AND d)"
| "sha1_f Parity2 b c d = b XOR c XOR d"

fun sha1_k :: "stage \<Rightarrow> int" where
  "sha1_k Ch = 0x5A827999"
| "sha1_k Parity1 = 0x6ED9EBA1"
| "sha1_k Maj = 0x8F1BBCDC"
| "sha1_k Parity2 = 0xCA62C1D6"

type_synonym digest = "int \<times> int \<times> int \<times> int \<times> int"

fun rounds :: "stage \<Rightarrow> int list \<Rightarrow> digest \<Rightarrow> digest" where
  "rounds p [] h = h"
| "rounds p (w # ws) (a, b, c, d, e) =
     rounds p ws
       (add32 (add32 (add32 (add32 (rotl 5 a) (sha1_f p b c d)) e) w) (sha1_k p),
        a, rotl 30 b, c, d)"

text \<open>Eighty rounds, twenty in each stage, over the words of the schedule.\<close>

definition rounds80 :: "int list \<Rightarrow> digest \<Rightarrow> digest" where
  "rounds80 w h =
     rounds Parity2 (take 20 (drop 60 w))
       (rounds Maj (take 20 (drop 40 w))
         (rounds Parity1 (take 20 (drop 20 w)) (rounds Ch (take 20 w) h)))"

fun add_digest :: "digest \<Rightarrow> digest \<Rightarrow> digest" where
  "add_digest (h0, h1, h2, h3, h4) (a, b, c, d, e) =
     (add32 h0 a, add32 h1 b, add32 h2 c, add32 h3 d, add32 h4 e)"

definition block :: "digest \<Rightarrow> int list \<Rightarrow> digest" where
  "block h bs = add_digest h (rounds80 (rev (schedule 64 (rev (be32 bs)))) h)"

text \<open>The digest is updated with each block of 64 bytes in turn.\<close>

function blocks :: "digest \<Rightarrow> int list \<Rightarrow> digest" where
  "blocks h m = (if length m < 64 then h else blocks (block h (take 64 m)) (drop 64 m))"
  by pat_completeness auto

termination blocks
  by (relation "measure (\<lambda>(h, m). length m)") auto

declare blocks.simps [simp del]

definition be_bytes :: "int \<Rightarrow> int list" where
  "be_bytes w = [w div 16777216 mod 256, w div 65536 mod 256, w div 256 mod 256, w mod 256]"

fun digest_bytes :: "digest \<Rightarrow> int list" where
  "digest_bytes (a, b, c, d, e) = be_bytes a @ be_bytes b @ be_bytes c @ be_bytes d @ be_bytes e"

text \<open>\<open>sha := sha1.New(); sha.Write([]byte(s)); sha.Sum(nil)\<close>: the 20 bytes of the
  digest of \<open>s\<close>.\<close>

definition sha1_Sum :: "string \<Rightarrow> int list" where
  "sha1_Sum s =
     digest_bytes
       (blocks (0x67452301, 0xEFCDAB89, 0x98BADCFE, 0x10325476, 0xC3D2E1F0)
          (sha1_pad (map of_char s)))"

text \<open>\<open>hex.EncodeToString\<close>: two lower-case hexadecimal digits for each byte.\<close>

definition hextable :: string where
  "hextable = ''0123456789abcdef''"

definition hex_EncodeToString :: "int list \<Rightarrow> string" where
  "hex_EncodeToString bs =
     concat (map (\<lambda>b. [hextable ! nat (b div 16 mod 16), hextable ! nat (b mod 16)]) bs)"


section \<open>The configuration document, the user and the libraries\<close>

text \<open>
  The evaluator receives the document as Go's \<open>interface{}\<close>, as \<open>encoding/json\<close>
  decodes it: \<open>nil\<close>, \<open>bool\<close>, \<open>float64\<close>, \<open>string\<close>, \<open>[]interface{}\<close> and
  \<open>map[string]interface{}\<close>. A number of a JSON document is finite, so \<open>JNum\<close> carries
  a rational.
\<close>

datatype json =
    JNull
  | JBool bool
  | JNum rat
  | JStr string
  | JArr "json list"
  | JObj "string \<Rightarrow> json option"

text \<open>\<open>m[k]\<close> on a \<open>map[string]interface{}\<close>: \<open>nil\<close> when the key is absent.\<close>

definition index :: "(string \<Rightarrow> json option) \<Rightarrow> string \<Rightarrow> json" where
  "index m k = (case m k of None \<Rightarrow> JNull | Some v \<Rightarrow> v)"

text \<open>The type assertions \<open>v.(string)\<close> and \<open>v.(float64)\<close> in their two-valued form:
  the zero value and \<open>False\<close> when the type is another.\<close>

fun asString :: "json \<Rightarrow> string \<times> bool" where
  "asString (JStr s) = (s, True)"
| "asString v = ([], False)"

fun asFloat64 :: "json \<Rightarrow> rat \<times> bool" where
  "asFloat64 (JNum n) = (n, True)"
| "asFloat64 v = (0, False)"

text \<open>The names of the fields (the constants of the package).\<close>

definition settingValue :: string where "settingValue = ''v''"
definition settingRolloutPercentageItems :: string where "settingRolloutPercentageItems = ''p''"
definition settingRolloutRules :: string where "settingRolloutRules = ''r''"
definition settingVariationId :: string where "settingVariationId = ''i''"
definition rolloutValue :: string where "rolloutValue = ''v''"
definition rolloutComparisonAttribute :: string where "rolloutComparisonAttribute = ''a''"
definition rolloutComparator :: string where "rolloutComparator = ''t''"
definition rolloutComparisonValue :: string where "rolloutComparisonValue = ''c''"
definition rolloutVariationId :: string where "rolloutVariationId = ''i''"
definition percentageItemValue :: string where "percentageItemValue = ''v''"
definition percentageItemPercentage :: string where "percentageItemPercentage = ''p''"
definition percentageItemVariationId :: string where "percentageItemVariationId = ''i''"

lemmas field_names =
  settingValue_def settingRolloutPercentageItems_def settingRolloutRules_def
  settingVariationId_def rolloutValue_def rolloutComparisonAttribute_def rolloutComparator_def
  rolloutComparisonValue_def rolloutVariationId_def percentageItemValue_def
  percentageItemPercentage_def percentageItemVariationId_def

text \<open>
  Modelled from the spec: the type \<open>User\<close> and its method \<open>GetAttribute\<close> are not
  among the sources. The spec has a user as a mapping from attribute name to string
  value with a designated identifier; an attribute that is absent reads as the empty
  string, which the evaluator tests with \<open>len(userValue) == 0\<close>.
\<close>

record user =
  "identifier" :: string
  attributes :: "string \<Rightarrow> string option"

definition GetAttribute :: "user \<Rightarrow> string \<Rightarrow> string" where
  "GetAttribute u k = (case attributes u k of None \<Rightarrow> [] | Some v \<Rightarrow> v)"

text \<open>A \<open>float64\<close> that \<open>strconv.ParseFloat\<close> returns: finite, infinite or not a
  number, with the comparisons of IEEE 754 (nothing equals or is ordered with NaN).\<close>

datatype float64 = Finite rat | PosInf | NegInf | NaN

fun float_eq :: "float64 \<Rightarrow> float64 \<Rightarrow> bool" where
  "float_eq (Finite x) (Finite y) = (x = y)"
| "float_eq PosInf PosInf = True"
| "float_eq NegInf NegInf = True"
| "float_eq x y = False"

fun float_lt :: "float64 \<Rightarrow> float64 \<Rightarrow> bool" where
  "float_lt NaN y = False"
| "float_lt x NaN = False"
| "float_lt (Finite x) (Finite y) = (x < y)"
| "float_lt x PosInf = (x \<noteq> PosInf)"
| "float_lt NegInf y = (y \<noteq> NegInf)"
| "float_lt x y = False"

definition float_le :: "float64 \<Rightarrow> float64 \<Rightarrow> bool" where
  "float_le x y = (float_lt x y \<or> float_eq x y)"

text \<open>
  What the evaluator takes from outside the repository and from the platform: the
  parser and the comparisons of \<open>github.com/blang/semver\<close> over versions \<open>'v\<close>,
  \<open>strconv.ParseFloat(s, 64)\<close> (\<open>None\<close> when it returns an error), and the result of
  converting a \<open>float64\<close> that no \<open>int64\<close> represents, which Go leaves to the
  implementation.
\<close>

record 'v lib =
  semver_Make :: "string \<Rightarrow> 'v option"
  semver_EQ :: "'v \<Rightarrow> 'v \<Rightarrow> bool"
  semver_LT :: "'v \<Rightarrow> 'v \<Rightarrow> bool"
  semver_LTE :: "'v \<Rightarrow> 'v \<Rightarrow> bool"
  semver_GT :: "'v \<Rightarrow> 'v \<Rightarrow> bool"
  semver_GTE :: "'v \<Rightarrow> 'v \<Rightarrow> bool"
  ParseFloat :: "string \<Rightarrow> float64 option"
  int64_unrepresentable :: "rat \<Rightarrow> int"

text \<open>\<open>int64(f)\<close> and, on a 64-bit platform, \<open>int(f)\<close>: the fraction is discarded
  (truncation towards zero).\<close>

definition truncateFloat :: "rat \<Rightarrow> int" where
  "truncateFloat f = (if 0 \<le> f then \<lfloor>f\<rfloor> else \<lceil>f\<rceil>)"

definition int64_wrap :: "int \<Rightarrow> int" where
  "int64_wrap n = (n + 9223372036854775808) mod 18446744073709551616 - 9223372036854775808"

definition int64 :: "'v lib \<Rightarrow> rat \<Rightarrow> int" where
  "int64 L f =
     (if - 9223372036854775808 \<le> truncateFloat f \<and> truncateFloat f < 9223372036854775808
      then truncateFloat f else int64_wrap (int64_unrepresentable L f))"

text \<open>\<open>strconv.ParseInt(s, 16, 64)\<close>: an optional sign and hexadecimal digits of either
  case; \<open>None\<close> for the syntax error and for the range error.\<close>

definition hexDigit :: "char \<Rightarrow> int option" where
  "hexDigit c =
     (let n = (of_char c :: int)
      in if 48 \<le> n \<and> n \<le> 57 then Some (n - 48)
         else if 97 \<le> n \<and> n \<le> 102 then Some (n - 87)
         else if 65 \<le> n \<and> n \<le> 70 then Some (n - 55)
         else None)"

fun hexDigits :: "int \<Rightarrow> string \<Rightarrow> int option" where
  "hexDigits acc [] = Some acc"
| "hexDigits acc (c # s) =
     (case hexDigit c of None \<Rightarrow> None | Some d \<Rightarrow> hexDigits (acc * 16 + d) s)"

definition ParseInt16 :: "string \<Rightarrow> int option" where
  "ParseInt16 s =
     (let neg = (s \<noteq> [] \<and> hd s = CHR ''-'');
          digits = (if s \<noteq> [] \<and> (hd s = CHR ''+'' \<or> hd s = CHR ''-'') then tl s else s)
      in if digits = [] then None
         else (case hexDigits 0 digits of
                 None \<Rightarrow> None
               | Some un \<Rightarrow>
                   if \<not> neg \<and> un \<ge> 9223372036854775808 then None
                   else if neg \<and> un > 9223372036854775808 then None
                   else Some (if neg then - un else un)))"

text \<open>Go's \<open>%\<close> on integers: the remainder of the division that truncates towards
  zero.\<close>

definition go_rem :: "int \<Rightarrow> int \<Rightarrow> int" where
  "go_rem a b = sgn a * (\<bar>a\<bar> mod \<bar>b\<bar>)"


section \<open>The rollout evaluator\<close>

text \<open>
  \<open>evaluate\<close> returns a value and a variation id, or panics. Its calls of the logger
  change nothing that it returns and are modelled by what evaluating their arguments can
  do: \<open>logMatch\<close>, \<open>logNoMatch\<close> and \<open>logFormatError\<close> index the table of comparator
  texts with \<open>int(comparator)\<close>, which panics outside the table.
\<close>

datatype error = IndexOutOfRange int

definition comparatorTexts :: "string list" where
  "comparatorTexts =
     [''IS ONE OF'', ''IS NOT ONE OF'', ''CONTAINS'', ''DOES NOT CONTAIN'',
      ''IS ONE OF (SemVer)'', ''IS NOT ONE OF (SemVer)'', ''< (SemVer)'', ''<= (SemVer)'',
      ''> (SemVer)'', ''>= (SemVer)'', ''= (Number)'', ''<> (Number)'', ''< (Number)'',
      ''<= (Number)'', ''> (Number)'', ''>= (Number)'', ''IS ONE OF (Sensitive)'',
      ''IS NOT ONE OF (Sensitive)'']"

definition comparatorText :: "'v lib \<Rightarrow> rat \<Rightarrow> error + string" where
  "comparatorText L comparator =
     (let i = int64 L comparator
      in if 0 \<le> i \<and> i < int (length comparatorTexts) then Inr (comparatorTexts ! nat i)
         else Inl (IndexOutOfRange i))"

definition logMatch :: "'v lib \<Rightarrow> rat \<Rightarrow> error + unit" where
  "logMatch L comparator = map_sum id (\<lambda>text. ()) (comparatorText L comparator)"

definition logNoMatch :: "'v lib \<Rightarrow> rat \<Rightarrow> error + unit" where
  "logNoMatch L comparator = map_sum id (\<lambda>text. ()) (comparatorText L comparator)"

definition logFormatError :: "'v lib \<Rightarrow> rat \<Rightarrow> error + unit" where
  "logFormatError L comparator = map_sum id (\<lambda>text. ()) (comparatorText L comparator)"

definition extractVariationId :: "json \<Rightarrow> string" where
  "extractVariationId variationId = fst (asString variationId)"

text \<open>The loop of \<open>IS ONE OF\<close>: it returns at the first item that, trimmed, contains
  the user's value.\<close>

fun oneOfLoop :: "string list \<Rightarrow> string \<Rightarrow> bool" where
  "oneOfLoop [] userValue = False"
| "oneOfLoop (item # separated) userValue =
     (if Contains (TrimSpace item) userValue then True else oneOfLoop separated userValue)"

text \<open>The loop of \<open>IS NOT ONE OF\<close>: it visits every item and returns \<open>found\<close>.\<close>

fun notOneOfLoop :: "string list \<Rightarrow> string \<Rightarrow> bool \<Rightarrow> bool" where
  "notOneOfLoop [] userValue found = found"
| "notOneOfLoop (item # separated) userValue found =
     notOneOfLoop separated userValue
       (if Contains (TrimSpace item) userValue then True else found)"

text \<open>The loop of \<open>IS ONE OF (SemVer)\<close>: \<open>None\<close> is \<open>shouldContinue\<close>, set at the first
  item that is not a version; the items that are empty once trimmed are passed over.\<close>

fun semVerLoop :: "'v lib \<Rightarrow> 'v \<Rightarrow> string list \<Rightarrow> bool \<Rightarrow> bool option" where
  "semVerLoop L userVersion [] matched = Some matched"
| "semVerLoop L userVersion (item # separated) matched =
     (if length (TrimSpace item) = 0 then semVerLoop L userVersion separated matched
      else (case semver_Make L (TrimSpace item) of
              None \<Rightarrow> None
            | Some semVer \<Rightarrow>
                semVerLoop L userVersion separated (semver_EQ L userVersion semVer \<or> matched)))"

text \<open>The \<open>switch\<close> on the comparator: the rule matches (\<open>logMatch\<close> and return), a
  value is not of the format (\<open>logFormatError\<close> and \<open>continue\<close>), or control leaves the
  \<open>switch\<close> (\<open>logNoMatch\<close>).\<close>

datatype outcome = Match | FormatError | NoMatch

definition switchComparator :: "'v lib \<Rightarrow> rat \<Rightarrow> string \<Rightarrow> string \<Rightarrow> outcome" where
  "switchComparator L comparator userValue comparisonValue =
     (if comparator = 0 then
        (if oneOfLoop (Split comparisonValue (CHR '','')) userValue then Match else NoMatch)
      else if comparator = 1 then
        (if \<not> notOneOfLoop (Split comparisonValue (CHR '','')) userValue False then Match
         else NoMatch)
      else if comparator = 2 then
        (if Contains userValue comparisonValue then Match else NoMatch)
      else if comparator = 3 then
        (if \<not> Contains userValue comparisonValue then Match else NoMatch)
      else if comparator = 4 \<or> comparator = 5 then
        (case semver_Make L userValue of
           None \<Rightarrow> FormatError
         | Some userVersion \<Rightarrow>
             (case semVerLoop L userVersion (Split comparisonValue (CHR '','')) False of
                None \<Rightarrow> FormatError
              | Some matched \<Rightarrow>
                  if (matched \<and> comparator = 4) \<or> (\<not> matched \<and> comparator = 5) then Match
                  else NoMatch))
      else if comparator = 6 \<or> comparator = 7 \<or> comparator = 8 \<or> comparator = 9 then
        (case semver_Make L userValue of
           None \<Rightarrow> FormatError
         | Some userVersion \<Rightarrow>
             (case semver_Make L (TrimSpace comparisonValue) of
                None \<Rightarrow> FormatError
              | Some cmpVersion \<Rightarrow>
                  if (comparator = 6 \<and> semver_LT L userVersion cmpVersion) \<or>
                     (comparator = 7 \<and> semver_LTE L userVersion cmpVersion) \<or>
                     (comparator = 8 \<and> semver_GT L userVersion cmpVersion) \<or>
                     (comparator = 9 \<and> semver_GTE L userVersion cmpVersion)
                  then Match else NoMatch))
      else if comparator = 10 \<or> comparator = 11 \<or> comparator = 12 \<or> comparator = 13 \<or>
              comparator = 14 \<or> comparator = 15 then
        (case ParseFloat L (Replace userValue (CHR '','') (CHR ''.'')) of
           None \<Rightarrow> FormatError
         | Some userDouble \<Rightarrow>
             (case ParseFloat L (Replace comparisonValue (CHR '','') (CHR ''.'')) of
                None \<Rightarrow> FormatError
              | Some cmpDouble \<Rightarrow>
                  if (comparator = 10 \<and> float_eq userDouble cmpDouble) \<or>
                     (comparator = 11 \<and> \<not> float_eq userDouble cmpDouble) \<or>
                     (comparator = 12 \<and> float_lt userDouble cmpDouble) \<or>
                     (comparator = 13 \<and> float_le userDouble cmpDouble) \<or>
                     (comparator = 14 \<and> float_lt cmpDouble userDouble) \<or>
                     (comparator = 15 \<and> float_le cmpDouble userDouble)
                  then Match else NoMatch))
      else if comparator = 16 then
        (if oneOfLoop (Split comparisonValue (CHR '','')) (hex_EncodeToString (sha1_Sum userValue))
         then Match else NoMatch)
      else if comparator = 17 then
        (if \<not> notOneOfLoop (Split comparisonValue (CHR '','')) (hex_EncodeToString (sha1_Sum userValue))
                False
         then Match else NoMatch)
      else NoMatch)"

text \<open>
  The body of the loop over the targeting rules: \<open>Inr (Some (value, variationId))\<close> is
  the \<open>return\<close>, \<open>Inr None\<close> goes on to the next rule, \<open>Inl\<close> is a panic. Each of the
  four type assertions assigns \<open>ok\<close>, so the \<open>ok\<close> that is tested is the last one's.
\<close>

definition evaluateRule :: "'v lib \<Rightarrow> user \<Rightarrow> json \<Rightarrow> error + (json \<times> string) option" where
  "evaluateRule L user r =
     (case r of
        JObj rule \<Rightarrow>
          (let comparisonAttribute = fst (asString (index rule rolloutComparisonAttribute));
               comparisonValue = fst (asString (index rule rolloutComparisonValue));
               comparator = fst (asFloat64 (index rule rolloutComparator));
               variationId = fst (asString (index rule rolloutVariationId));
               ok = snd (asString (index rule rolloutVariationId));
               userValue = GetAttribute user comparisonAttribute;
               value = index rule rolloutValue
           in if \<not> ok \<or> length userValue = 0 then
                (case logNoMatch L comparator of Inl e \<Rightarrow> Inl e | Inr u \<Rightarrow> Inr None)
              else
                (case switchComparator L comparator userValue comparisonValue of
                   Match \<Rightarrow>
                     (case logMatch L comparator of
                        Inl e \<Rightarrow> Inl e
                      | Inr u \<Rightarrow> Inr (Some (value, variationId)))
                 | FormatError \<Rightarrow>
                     (case logFormatError L comparator of Inl e \<Rightarrow> Inl e | Inr u \<Rightarrow> Inr None)
                 | NoMatch \<Rightarrow>
                     (case logNoMatch L comparator of Inl e \<Rightarrow> Inl e | Inr u \<Rightarrow> Inr None)))
      | _ \<Rightarrow> Inr None)"

fun rolloutLoop :: "'v lib \<Rightarrow> user \<Rightarrow> json list \<Rightarrow> error + (json \<times> string) option" where
  "rolloutLoop L user [] = Inr None"
| "rolloutLoop L user (r # rolloutRules) =
     (case evaluateRule L user r of
        Inl e \<Rightarrow> Inl e
      | Inr (Some result) \<Rightarrow> Inr (Some result)
      | Inr None \<Rightarrow> rolloutLoop L user rolloutRules)"

text \<open>The loop over the percentage rules; \<open>bucket\<close> is an \<open>int64\<close> and its addition
  wraps around.\<close>

fun percentageLoop :: "'v lib \<Rightarrow> int \<Rightarrow> int \<Rightarrow> json list \<Rightarrow> (json \<times> string) option" where
  "percentageLoop L scaled bucket [] = None"
| "percentageLoop L scaled bucket (JObj rule # percentageRules) =
     (if snd (asFloat64 (index rule percentageItemPercentage)) then
        (if scaled <
              int64_wrap (bucket + int64 L (fst (asFloat64 (index rule percentageItemPercentage))))
         then Some (index rule percentageItemValue,
                    extractVariationId (index rule percentageItemVariationId))
         else percentageLoop L scaled
                (int64_wrap (bucket + int64 L (fst (asFloat64 (index rule percentageItemPercentage)))))
                percentageRules)
      else percentageLoop L scaled bucket percentageRules)"
| "percentageLoop L scaled bucket (r # percentageRules) =
     percentageLoop L scaled bucket percentageRules"

text \<open>The first seven hexadecimal digits of the SHA-1 of \<open>key + user.identifier\<close>,
  read in base 16.\<close>

definition hashNumber :: "string \<Rightarrow> user \<Rightarrow> int option" where
  "hashNumber key user =
     ParseInt16 (take 7 (hex_EncodeToString (sha1_Sum (key @ identifier user))))"

definition evaluatePercentage ::
  "'v lib \<Rightarrow> (string \<Rightarrow> json option) \<Rightarrow> string \<Rightarrow> user \<Rightarrow> (json \<times> string) option" where
  "evaluatePercentage L node key user =
     (case index node settingRolloutPercentageItems of
        JArr percentageRules \<Rightarrow>
          if length percentageRules > 0 then
            (case hashNumber key user of
               None \<Rightarrow> None
             | Some num \<Rightarrow> percentageLoop L (go_rem num 100) 0 percentageRules)
          else None
      | _ \<Rightarrow> None)"

definition evaluateRollout ::
  "'v lib \<Rightarrow> (string \<Rightarrow> json option) \<Rightarrow> user \<Rightarrow> error + (json \<times> string) option" where
  "evaluateRollout L node user =
     (case index node settingRolloutRules of
        JArr rolloutRules \<Rightarrow> rolloutLoop L user rolloutRules
      | _ \<Rightarrow> Inr None)"

definition baseValue :: "(string \<Rightarrow> json option) \<Rightarrow> json \<times> string" where
  "baseValue node = (index node settingValue, extractVariationId (index node settingVariationId))"

definition evaluate :: "'v lib \<Rightarrow> json \<Rightarrow> string \<Rightarrow> user option \<Rightarrow> error + json \<times> string" where
  "evaluate L json key user =
     (case json of
        JObj node \<Rightarrow>
          (case user of
             None \<Rightarrow> Inr (baseValue node)
           | Some u \<Rightarrow>
               (case evaluateRollout L node u of
                  Inl e \<Rightarrow> Inl e
                | Inr (Some result) \<Rightarrow> Inr result
                | Inr None \<Rightarrow>
                    (case evaluatePercentage L node key u of
                       Some result \<Rightarrow> Inr result
                     | None \<Rightarrow> Inr (baseValue node))))
      | _ \<Rightarrow> Inr (JNull, []))"


section \<open>The config store\<close>

datatype fetchStatus = Fetched | NotModified | Failure

text \<open>
  Modelled from the spec: the type \<open>fetchResponse\<close> and its method \<open>isFetched\<close> are
  not among the sources. The spec has a response as a status and a body; a response is
  fetched when its status is \<open>Fetched\<close>.
\<close>

record fetchResponse =
  status :: fetchStatus
  body :: string

definition isFetched :: "fetchResponse \<Rightarrow> bool" where
  "isFetched response = (status response = Fetched)"

text \<open>
  Modelled from the spec: the interface \<open>ConfigCache\<close> is not among the sources. The
  spec has it as \<open>get(key) -> (text, error)\<close> and \<open>set(key, value) -> error\<close>. The
  external cache is a state \<open>'c\<close> that both operations may change; an \<open>error\<close> is its
  message, \<open>None\<close> for \<open>nil\<close>.
\<close>

record 'c ConfigCache =
  cache_Get :: "'c \<Rightarrow> string \<Rightarrow> (string \<times> string option) \<times> 'c"
  cache_Set :: "'c \<Rightarrow> string \<Rightarrow> string \<Rightarrow> string option \<times> 'c"

text \<open>The refresher: the state of the external cache, the lines that the logger has
  received (the latest last), the in-memory value and the cache key. The lock admits
  one writer at a time, so each operation is a function of the state.\<close>

record 'c configRefresher =
  cache :: 'c
  logger :: "string list"
  inMemoryValue :: string
  cacheKey :: string

text \<open>\<open>newConfigRefresher\<close>; the constant \<open>ConfigJsonName\<close> of the cache key is not
  among the sources and is a parameter.\<close>

definition newConfigRefresher :: "string \<Rightarrow> 'c \<Rightarrow> string \<Rightarrow> 'c configRefresher" where
  "newConfigRefresher ConfigJsonName c sdkKey =
     \<lparr>cache = c, logger = [], inMemoryValue = [],
      cacheKey = ''go_'' @ ConfigJsonName @ ''_'' @ hex_EncodeToString (sha1_Sum sdkKey)\<rparr>"

definition getLastCachedConfig :: "'c configRefresher \<Rightarrow> string" where
  "getLastCachedConfig refresher = inMemoryValue refresher"

definition get :: "'c ConfigCache \<Rightarrow> 'c configRefresher \<Rightarrow> string \<times> 'c configRefresher" where
  "get C refresher =
     (case cache_Get C (cache refresher) (cacheKey refresher) of
        ((value, err), c) \<Rightarrow>
          (case err of
             Some e \<Rightarrow>
               (inMemoryValue refresher,
                refresher\<lparr>cache := c,
                  logger := logger refresher @ [''Reading from the cache failed, '' @ e]\<rparr>)
           | None \<Rightarrow> (value, refresher\<lparr>cache := c\<rparr>)))"

text \<open>\<open>set\<close> in two steps, in the order of the source: the assignment of the in-memory
  value, then the write to the external cache, whose error is logged.\<close>

definition cacheWrite :: "'c ConfigCache \<Rightarrow> string \<Rightarrow> 'c configRefresher \<Rightarrow> 'c configRefresher" where
  "cacheWrite C value refresher =
     (case cache_Set C (cache refresher) (cacheKey refresher) value of
        (err, c) \<Rightarrow>
          (case err of
             Some e \<Rightarrow>
               refresher\<lparr>cache := c,
                 logger := logger refresher @ [''Saving into the cache failed, '' @ e]\<rparr>
           | None \<Rightarrow> refresher\<lparr>cache := c\<rparr>))"

definition set' :: "'c ConfigCache \<Rightarrow> string \<Rightarrow> 'c configRefresher \<Rightarrow> 'c configRefresher" where
  "set' C value refresher = cacheWrite C value (refresher\<lparr>inMemoryValue := value\<rparr>)"

text \<open>\<open>refreshAsync\<close>: the callback that runs when the fetch completes with
  \<open>response\<close>.\<close>

definition refreshAsync ::
  "'c ConfigCache \<Rightarrow> fetchResponse \<Rightarrow> 'c configRefresher \<Rightarrow> 'c configRefresher" where
  "refreshAsync C response refresher =
     (if isFetched response then set' C (body response) refresher else refresher)"

text \<open>A history of the store: the operations that a process has performed on it.\<close>

datatype operation = Get | Set string | Refresh fetchResponse

fun perform :: "'c ConfigCache \<Rightarrow> operation \<Rightarrow> 'c configRefresher \<Rightarrow> 'c configRefresher" where
  "perform C Get refresher = snd (get C refresher)"
| "perform C (Set value) refresher = set' C value refresher"
| "perform C (Refresh response) refresher = refreshAsync C response refresher"

fun history :: "'c ConfigCache \<Rightarrow> operation list \<Rightarrow> 'c configRefresher \<Rightarrow> 'c configRefresher" where
  "history C [] refresher = refresher"
| "history C (operation # operations) refresher =
     history C operations (perform C operation refresher)"

text \<open>The last value that a history has written through \<open>set\<close>, \<open>initial\<close> when it
  has written none.\<close>

fun lastWritten :: "operation list \<Rightarrow> string \<Rightarrow> string" where
  "lastWritten [] initial = initial"
| "lastWritten (Get # operations) initial = lastWritten operations initial"
| "lastWritten (Set value # operations) initial = lastWritten operations value"
| "lastWritten (Refresh response # operations) initial =
     lastWritten operations (if isFetched response then body response else initial)"

section \<open>Instances for evaluation\<close>

text \<open>
  An external cache in memory whose operations fail on request: a map from keys to
  texts and the error that the next operations return.
\<close>

record memoryCache =
  entries :: "string \<Rightarrow> string option"
  failing :: "string option"

definition memoryConfigCache :: "memoryCache ConfigCache" where
  "memoryConfigCache =
     \<lparr>cache_Get = (\<lambda>c key.
        (case failing c of
           Some e \<Rightarrow> (([], Some e), c)
         | None \<Rightarrow> (((case entries c key of None \<Rightarrow> [] | Some v \<Rightarrow> v), None), c))),
      cache_Set = (\<lambda>c key value.
        (case failing c of
           Some e \<Rightarrow> (Some e, c)
         | None \<Rightarrow> (None, c\<lparr>entries := (entries c)(key \<mapsto> value)\<rparr>)))\<rparr>"

text \<open>
  A small instance of the libraries, to evaluate the model on documents: versions of
  the plain form \<open>MAJOR.MINOR.PATCH\<close> in their lexicographic order, and decimals of the
  plain form \<open>-?DIGITS(.DIGITS)?\<close> with their exact value.
\<close>

fun decimalDigits :: "nat \<Rightarrow> string \<Rightarrow> nat option" where
  "decimalDigits acc [] = Some acc"
| "decimalDigits acc (c # s) =
     (if 48 \<le> (of_char c :: nat) \<and> (of_char c :: nat) \<le> 57
      then decimalDigits (acc * 10 + (of_char c - 48)) s else None)"

definition decimalNumber :: "string \<Rightarrow> nat option" where
  "decimalNumber s = (if s = [] then None else decimalDigits 0 s)"

definition plainVersion :: "string \<Rightarrow> (nat \<times> nat \<times> nat) option" where
  "plainVersion s =
     (case map decimalNumber (Split s (CHR ''.'')) of
        [Some major, Some minor, Some patch] \<Rightarrow> Some (major, minor, patch)
      | _ \<Rightarrow> None)"

fun versionLess :: "nat \<times> nat \<times> nat \<Rightarrow> nat \<times> nat \<times> nat \<Rightarrow> bool" where
  "versionLess (a, b, c) (x, y, z) = (a < x \<or> a = x \<and> (b < y \<or> b = y \<and> c < z))"

definition plainDecimal :: "string \<Rightarrow> float64 option" where
  "plainDecimal s =
     (let neg = (s \<noteq> [] \<and> hd s = CHR ''-'');
          parts = Split (if neg then tl s else s) (CHR ''.'')
      in case map decimalNumber parts of
           [Some n] \<Rightarrow> Some (Finite ((if neg then - 1 else 1) * of_nat n))
         | [Some n, Some f] \<Rightarrow>
             Some (Finite ((if neg then - 1 else 1) *
                           (of_nat n + of_nat f / 10 ^ length (parts ! 1))))
         | _ \<Rightarrow> None)"

definition plainLib :: "(nat \<times> nat \<times> nat) lib" where
  "plainLib =
     \<lparr>semver_Make = plainVersion,
      semver_EQ = (\<lambda>v w. v = w),
      semver_LT = versionLess,
      semver_LTE = (\<lambda>v w. versionLess v w \<or> v = w),
      semver_GT = (\<lambda>v w. versionLess w v),
      semver_GTE = (\<lambda>v w. versionLess w v \<or> v = w),
      ParseFloat = plainDecimal,
      int64_unrepresentable = (\<lambda>f. - 9223372036854775808)\<rparr>"


section \<open>Documents for evaluation\<close>

text \<open>A user with the attribute \<open>x\<close>, and the targeting rule
  \<open>{"a": "x", "t": comparator, "c": comparisonValue, "v": value, "i": variationId}\<close>.\<close>

definition userWith :: "string \<Rightarrow> user" where
  "userWith x = \<lparr>identifier = ''u1'', attributes = [''x'' \<mapsto> x]\<rparr>"

definition targetingRule :: "rat \<Rightarrow> string \<Rightarrow> json \<Rightarrow> string \<Rightarrow> string \<Rightarrow> json option" where
  "targetingRule comparator comparisonValue value variationId =
     [''a'' \<mapsto> JStr ''x'', ''t'' \<mapsto> JNum comparator, ''c'' \<mapsto> JStr comparisonValue,
      ''v'' \<mapsto> value, ''i'' \<mapsto> JStr variationId]"

definition percentageRule :: "rat \<Rightarrow> json \<Rightarrow> string \<Rightarrow> string \<Rightarrow> json option" where
  "percentageRule percentage value variationId =
     [''p'' \<mapsto> JNum percentage, ''v'' \<mapsto> value, ''i'' \<mapsto> JStr variationId]"

definition settingNode :: "json list \<Rightarrow> json list \<Rightarrow> string \<Rightarrow> json option" where
  "settingNode rolloutRules percentageRules =
     [''v'' \<mapsto> JStr ''base'', ''i'' \<mapsto> JStr ''id0'', ''r'' \<mapsto> JArr rolloutRules,
      ''p'' \<mapsto> JArr percentageRules]"

lemmas document_defs =
  userWith_def targetingRule_def percentageRule_def settingNode_def field_names index_def
  GetAttribute_def extractVariationId_def

section \<open>The base value\<close>

lemma evaluateRollout_no_rules:
  assumes "\<forall>rolloutRules. index node settingRolloutRules = JArr rolloutRules \<longrightarrow> rolloutRules = []"
  shows "evaluateRollout L node u = Inr None"
proof (cases "index node settingRolloutRules")
  case (JArr rolloutRules)
  with assms have "rolloutRules = []" by simp
  with JArr show ?thesis by (simp add: evaluateRollout_def)
qed (simp_all add: evaluateRollout_def)

lemma evaluatePercentage_no_rules:
  assumes "\<forall>percentageRules.
             index node settingRolloutPercentageItems = JArr percentageRules \<longrightarrow> percentageRules = []"
  shows "evaluatePercentage L node key u = None"
proof (cases "index node settingRolloutPercentageItems")
  case (JArr percentageRules)
  with assms have "percentageRules = []" by simp
  with JArr show ?thesis by (simp add: evaluatePercentage_def)
qed (simp_all add: evaluatePercentage_def)

text \<open>
  C9. A node whose targeting rules and percentage rules are both absent or empty
  evaluates to its base value and variation id for every user argument, \<open>nil\<close>
  (\<open>None\<close>) too, so that the result does not depend on the user; and every node
  evaluates to its base value and variation id when the user is \<open>nil\<close>, whatever rules
  it has.
\<close>

theorem evaluate_base_value:
  shows "((\<forall>rolloutRules. index node settingRolloutRules = JArr rolloutRules \<longrightarrow> rolloutRules = []) \<and>
          (\<forall>percentageRules. index node settingRolloutPercentageItems = JArr percentageRules \<longrightarrow>
              percentageRules = []) \<longrightarrow>
            evaluate L (JObj node) key user =
              Inr (index node settingValue, extractVariationId (index node settingVariationId)) \<and>
            evaluate L (JObj node) key user = evaluate L (JObj node) key user') \<and>
         evaluate L (JObj anyNode) key None =
           Inr (index anyNode settingValue, extractVariationId (index anyNode settingVariationId))"
proof -
  have nil: "evaluate L (JObj n) k None = Inr (baseValue n)" for n k
    by (simp add: evaluate_def)
  have some: "evaluate L (JObj node) k (Some u) = Inr (baseValue node)"
    if "\<forall>rolloutRules. index node settingRolloutRules = JArr rolloutRules \<longrightarrow> rolloutRules = []"
      and "\<forall>percentageRules. index node settingRolloutPercentageItems = JArr percentageRules \<longrightarrow>
              percentageRules = []"
    for k u
    using that by (simp add: evaluate_def evaluateRollout_no_rules evaluatePercentage_no_rules)
  have every: "evaluate L (JObj node) k w = Inr (baseValue node)"
    if "\<forall>rolloutRules. index node settingRolloutRules = JArr rolloutRules \<longrightarrow> rolloutRules = []"
      and "\<forall>percentageRules. index node settingRolloutPercentageItems = JArr percentageRules \<longrightarrow>
              percentageRules = []"
    for k w
    using that nil some by (cases w) simp_all
  show ?thesis
    using nil every by (simp add: baseValue_def)
qed


theorem evaluate_base_value_witness:
  "evaluate plainLib (JObj (settingNode [] [])) ''key'' (Some (userWith ''alpha'')) =
     Inr (JStr ''base'', ''id0'') \<and>
   evaluate plainLib (JObj (settingNode [] [])) ''key'' (Some (userWith ''alpha'')) =
     evaluate plainLib (JObj (settingNode [] [])) ''key'' None \<and>
   evaluate plainLib
     (JObj (settingNode [JObj (targetingRule 0 ''alpha, beta'' (JStr ''on'') ''id1'')]
              [JObj (percentageRule 100 (JStr ''all'') ''id2'')])) ''key'' None =
     Inr (JStr ''base'', ''id0'')"
proof -
  have none: "\<forall>rolloutRules. index (settingNode [] []) settingRolloutRules = JArr rolloutRules \<longrightarrow>
          rolloutRules = []"
      "\<forall>percentageRules.
          index (settingNode [] []) settingRolloutPercentageItems = JArr percentageRules \<longrightarrow>
          percentageRules = []"
    by (simp_all add: document_defs)
  have base: "index (settingNode rs ps) settingValue = JStr ''base''"
    "extractVariationId (index (settingNode rs ps) settingVariationId) = ''id0''" for rs ps
    by (simp_all add: document_defs)
  show ?thesis
    using none evaluate_base_value
      [where node = "settingNode [] []" and L = plainLib and key = "''key''"
         and user = "Some (userWith ''alpha'')" and user' = None
         and anyNode = "settingNode [JObj (targetingRule 0 ''alpha, beta'' (JStr ''on'') ''id1'')]
              [JObj (percentageRule 100 (JStr ''all'') ''id2'')]"]
    by (auto simp: base)
qed


section \<open>The config store: reads, writes and the refresh cycle\<close>

lemma inMemoryValue_get: "inMemoryValue (snd (get C refresher)) = inMemoryValue refresher"
  by (simp add: get_def split: prod.splits option.splits)

lemma inMemoryValue_cacheWrite:
  "inMemoryValue (cacheWrite C value refresher) = inMemoryValue refresher"
  by (simp add: cacheWrite_def split: prod.splits option.splits)

lemma cacheKey_cacheWrite: "cacheKey (cacheWrite C value refresher) = cacheKey refresher"
  by (simp add: cacheWrite_def split: prod.splits option.splits)

lemma inMemoryValue_set: "inMemoryValue (set' C value refresher) = value"
  by (simp add: set'_def inMemoryValue_cacheWrite)

lemma inMemoryValue_perform:
  "inMemoryValue (perform C operation refresher) =
     lastWritten [operation] (inMemoryValue refresher)"
  by (cases operation) (simp_all add: inMemoryValue_get inMemoryValue_set refreshAsync_def)

lemma lastWritten_step:
  "lastWritten (operation # operations) initial =
     lastWritten operations (lastWritten [operation] initial)"
  by (cases operation) simp_all

lemma inMemoryValue_history:
  "inMemoryValue (history C operations refresher) =
     lastWritten operations (inMemoryValue refresher)"
proof (induction operations arbitrary: refresher)
  case Nil
  show ?case by simp
next
  case (Cons operation operations)
  have "inMemoryValue (history C (operation # operations) refresher) =
          lastWritten operations (inMemoryValue (perform C operation refresher))"
    using Cons.IH by simp
  also have "\<dots> = lastWritten operations (lastWritten [operation] (inMemoryValue refresher))"
    by (simp only: inMemoryValue_perform)
  also have "\<dots> = lastWritten (operation # operations) (inMemoryValue refresher)"
    by (simp only: lastWritten_step [symmetric])
  finally show ?case .
qed

text \<open>A store whose external cache fails with the error \<open>down\<close>, and one whose
  external cache works and holds \<open>cached\<close>.\<close>

definition failingStore :: "memoryCache configRefresher" where
  "failingStore =
     \<lparr>cache = \<lparr>entries = Map.empty, failing = Some ''down''\<rparr>, logger = [],
      inMemoryValue = ''old'', cacheKey = ''go_config_k''\<rparr>"

definition workingStore :: "memoryCache configRefresher" where
  "workingStore =
     \<lparr>cache = \<lparr>entries = [''go_config_k'' \<mapsto> ''cached''], failing = None\<rparr>, logger = [],
      inMemoryValue = ''old'', cacheKey = ''go_config_k''\<rparr>"

lemmas store_defs =
  failingStore_def workingStore_def memoryConfigCache_def get_def set'_def cacheWrite_def
  refreshAsync_def isFetched_def

text \<open>
  C4. In every state of the store, also after any history of operations, \<open>get\<close>
  returns the value that the external cache returns for the cache key when the read of
  the external cache succeeds. When the read returns an error, \<open>get\<close> logs it and
  returns the in-memory value, which is the last value that the history wrote through
  \<open>set\<close>; the result of \<open>get\<close> is a text in both cases, never an error.
\<close>

theorem get_cache_or_fallback:
  "(cache_Get C (cache (history C operations refresher))
        (cacheKey (history C operations refresher)) = ((value, None), c) \<longrightarrow>
      fst (get C (history C operations refresher)) = value) \<and>
   (cache_Get C (cache (history C operations refresher))
        (cacheKey (history C operations refresher)) = ((value, Some e), c) \<longrightarrow>
      fst (get C (history C operations refresher)) =
        lastWritten operations (inMemoryValue refresher) \<and>
      logger (snd (get C (history C operations refresher))) =
        logger (history C operations refresher) @ [''Reading from the cache failed, '' @ e])"
  by (simp add: get_def inMemoryValue_history)

theorem get_cache_or_fallback_witness:
  "fst (get memoryConfigCache (history memoryConfigCache [] workingStore)) = ''cached'' \<and>
   fst (get memoryConfigCache
          (history memoryConfigCache [Set ''new'', Get] failingStore)) = ''new'' \<and>
   logger (snd (get memoryConfigCache
          (history memoryConfigCache [Set ''new'', Get] failingStore))) =
     [''Saving into the cache failed, down'', ''Reading from the cache failed, down'',
      ''Reading from the cache failed, down'']"
proof -
  have ok: "cache_Get memoryConfigCache (cache (history memoryConfigCache [] workingStore))
        (cacheKey (history memoryConfigCache [] workingStore)) =
        ((''cached'', None), cache workingStore)"
    by (simp add: store_defs)
  have failed: "cache_Get memoryConfigCache
        (cache (history memoryConfigCache [Set ''new'', Get] failingStore))
        (cacheKey (history memoryConfigCache [Set ''new'', Get] failingStore)) =
        (([], Some ''down''), cache failingStore)"
    by (simp add: store_defs)
  have log: "logger (history memoryConfigCache [Set ''new'', Get] failingStore) =
      [''Saving into the cache failed, down'', ''Reading from the cache failed, down'']"
    by (simp add: store_defs)
  have old: "lastWritten [Set ''new'', Get] (inMemoryValue failingStore) = ''new''"
    by simp
  show ?thesis
    using
      get_cache_or_fallback [of memoryConfigCache "[]" workingStore "''cached''"
        "cache workingStore"]
      get_cache_or_fallback [of memoryConfigCache "[Set ''new'', Get]" failingStore "[]"
        "cache failingStore" "''down''"]
    by (simp only: ok failed log old) simp
qed


text \<open>
  C5. \<open>set\<close> assigns the in-memory value first and attempts the write to the external
  cache in the state so changed. When the external cache returns an error, \<open>set\<close> logs
  it and returns normally, the in-memory value is the value written, and a later \<open>get\<close>
  whose read of the external cache fails returns the value written.
\<close>

theorem set_memory_then_cache:
  "set' C value refresher = cacheWrite C value (refresher\<lparr>inMemoryValue := value\<rparr>) \<and>
   inMemoryValue (set' C value refresher) = value \<and>
   (cache_Set C (cache refresher) (cacheKey refresher) value = (Some e, c) \<longrightarrow>
      logger (set' C value refresher) =
        logger refresher @ [''Saving into the cache failed, '' @ e] \<and>
      cache (set' C value refresher) = c \<and>
      (cache_Get C c (cacheKey refresher) = ((v, Some e'), c') \<longrightarrow>
         fst (get C (set' C value refresher)) = value))"
proof -
  have "fst (get C (set' C value refresher)) = value"
    if "cache_Set C (cache refresher) (cacheKey refresher) value = (Some e, c)"
      and "cache_Get C c (cacheKey refresher) = ((v, Some e'), c')"
    using that by (simp add: get_def set'_def cacheWrite_def)
  moreover have "logger (set' C value refresher) =
        logger refresher @ [''Saving into the cache failed, '' @ e] \<and>
      cache (set' C value refresher) = c"
    if "cache_Set C (cache refresher) (cacheKey refresher) value = (Some e, c)"
    using that by (simp add: set'_def cacheWrite_def)
  ultimately show ?thesis
    by (simp add: inMemoryValue_set) (simp add: set'_def)
qed

theorem set_memory_then_cache_witness:
  "inMemoryValue (set' memoryConfigCache ''new'' failingStore) = ''new'' \<and>
   logger (set' memoryConfigCache ''new'' failingStore) =
     [''Saving into the cache failed, down''] \<and>
   cache (set' memoryConfigCache ''new'' failingStore) = cache failingStore \<and>
   fst (get memoryConfigCache (set' memoryConfigCache ''new'' failingStore)) = ''new''"
proof -
  have wr: "cache_Set memoryConfigCache (cache failingStore) (cacheKey failingStore) ''new'' =
      (Some ''down'', cache failingStore)"
    by (simp add: store_defs)
  have rd: "cache_Get memoryConfigCache (cache failingStore) (cacheKey failingStore) =
      (([], Some ''down''), cache failingStore)"
    by (simp add: store_defs)
  have log: "logger failingStore = []"
    by (simp add: failingStore_def)
  show ?thesis
    using set_memory_then_cache [of memoryConfigCache "''new''" failingStore "''down''"
        "cache failingStore" "[]" "''down''" "cache failingStore", THEN conjunct2]
    by (simp only: wr rd log) simp
qed

text \<open>
  C3. The refresh cycle writes the body of the response into the store, that is into the
  in-memory value and, through \<open>set\<close>, into the external cache, when the status of the
  response is \<open>Fetched\<close>; when the status is \<open>NotModified\<close> or \<open>Failure\<close> the store is
  as it was: the in-memory value, the external cache and the log.
\<close>

theorem refreshAsync_stores_iff_fetched:
  "(status response = Fetched \<longrightarrow>
      refreshAsync C response refresher = set' C (body response) refresher \<and>
      inMemoryValue (refreshAsync C response refresher) = body response \<and>
      cache (refreshAsync C response refresher) =
        snd (cache_Set C (cache refresher) (cacheKey refresher) (body response))) \<and>
   (status response = NotModified \<or> status response = Failure \<longrightarrow>
      refreshAsync C response refresher = refresher)"
proof -
  have "cache (set' C t refresher) =
      snd (cache_Set C (cache refresher) (cacheKey refresher) t)" for t
    by (simp add: set'_def cacheWrite_def split: prod.splits option.splits)
  then show ?thesis
    by (auto simp: refreshAsync_def isFetched_def inMemoryValue_set)
qed

theorem refreshAsync_stores_iff_fetched_witness:
  "inMemoryValue
     (refreshAsync memoryConfigCache \<lparr>status = Fetched, body = ''new''\<rparr> workingStore) = ''new'' \<and>
   entries (cache
     (refreshAsync memoryConfigCache \<lparr>status = Fetched, body = ''new''\<rparr> workingStore))
     ''go_config_k'' = Some ''new'' \<and>
   refreshAsync memoryConfigCache \<lparr>status = NotModified, body = ''new''\<rparr> workingStore =
     workingStore \<and>
   refreshAsync memoryConfigCache \<lparr>status = Failure, body = []\<rparr> workingStore = workingStore"
proof -
  have wr: "entries (snd (cache_Set memoryConfigCache (cache workingStore)
      (cacheKey workingStore) ''new'')) ''go_config_k'' = Some ''new''"
    by (simp add: store_defs)
  show ?thesis
    using wr
      refreshAsync_stores_iff_fetched [of "\<lparr>status = Fetched, body = ''new''\<rparr>"
        memoryConfigCache workingStore]
      refreshAsync_stores_iff_fetched [of "\<lparr>status = NotModified, body = ''new''\<rparr>"
        memoryConfigCache workingStore]
      refreshAsync_stores_iff_fetched [of "\<lparr>status = Failure, body = []\<rparr>"
        memoryConfigCache workingStore]
    by auto
qed


section \<open>The targeting rules\<close>

lemma Contains_iff_sublist: "Contains s substr \<longleftrightarrow> sublist substr s"
  by (induction s) (simp_all add: sublist_Cons_right)

lemma oneOfLoop_iff:
  "oneOfLoop separated userValue \<longleftrightarrow>
     (\<exists>item\<in>set separated. sublist userValue (TrimSpace item))"
  by (induction separated) (simp_all add: Contains_iff_sublist)

lemma notOneOfLoop_iff:
  "notOneOfLoop separated userValue found \<longleftrightarrow>
     found \<or> (\<exists>item\<in>set separated. sublist userValue (TrimSpace item))"
  by (induction separated arbitrary: found) (auto simp: Contains_iff_sublist)

text \<open>The index into the table of comparator texts is in range for the eighteen
  comparators, and for every number that truncates to one of them.\<close>

lemma truncateFloat_range:
  assumes "- 1 < comparator" and "comparator < 18"
  shows "0 \<le> truncateFloat comparator \<and> truncateFloat comparator < 18"
proof (cases "0 \<le> comparator")
  case True
  then have "0 \<le> \<lfloor>comparator\<rfloor>" by simp
  moreover from assms(2) have "\<lfloor>comparator\<rfloor> < 18" by (simp add: floor_less_iff)
  ultimately show ?thesis using True by (simp add: truncateFloat_def)
next
  case False
  then have "\<lceil>comparator\<rceil> \<le> 0" by (simp add: ceiling_le_iff)
  then have "\<lceil>comparator\<rceil> < 18" by linarith
  moreover from assms(1) have "0 \<le> \<lceil>comparator\<rceil>" by simp
  ultimately show ?thesis using False by (simp only: truncateFloat_def if_False)
qed

lemma comparatorText_in_range:
  assumes "- 1 < comparator" and "comparator < 18"
  shows "\<exists>text. comparatorText L comparator = Inr text"
  using truncateFloat_range [OF assms]
  by (simp add: comparatorText_def int64_def comparatorTexts_def)

lemma log_in_range:
  assumes "- 1 < comparator" and "comparator < 18"
  shows "logMatch L comparator = Inr ()" and "logNoMatch L comparator = Inr ()"
    and "logFormatError L comparator = Inr ()"
  using comparatorText_in_range [OF assms, of L]
  by (auto simp: logMatch_def logNoMatch_def logFormatError_def)

text \<open>A rule whose variation id is a string, for a user whose attribute is not empty,
  is decided by the \<open>switch\<close>.\<close>

lemma evaluateRule_switch:
  assumes "asString (index rule rolloutVariationId) = (variationId, True)"
    and "GetAttribute user (fst (asString (index rule rolloutComparisonAttribute))) = userValue"
    and "userValue \<noteq> []"
    and "fst (asFloat64 (index rule rolloutComparator)) = comparator"
    and "- 1 < comparator" and "comparator < 18"
  shows "evaluateRule L user (JObj rule) =
     Inr (case switchComparator L comparator userValue
                 (fst (asString (index rule rolloutComparisonValue))) of
            Match \<Rightarrow> Some (index rule rolloutValue, variationId)
          | FormatError \<Rightarrow> None
          | NoMatch \<Rightarrow> None)"
  using assms(1-4) log_in_range [OF assms(5,6), of L]
  by (simp add: evaluateRule_def Let_def split: outcome.splits)

lemma asString_JStr: "index rule field = JStr s \<Longrightarrow> asString (index rule field) = (s, True)"
  by simp


lemmas trim_eval = TrimSpace_def TrimLeftIn.simps spaceWidth_def whiteSpace_def

lemmas rule_eval =
  evaluateRule_def switchComparator_def logMatch_def logNoMatch_def logFormatError_def
  comparatorText_def comparatorTexts_def int64_def truncateFloat_def Let_def

text \<open>
  C1. A targeting rule with the comparator \<open>IS ONE OF\<close> (0), for a user whose value
  \<open>u\<close> of the rule's attribute is not empty, matches exactly when \<open>u\<close> is a substring
  of some item of the comma-separated comparison value with its white space trimmed; a
  rule with \<open>IS NOT ONE OF\<close> (1) matches exactly when \<open>u\<close> is a substring of no trimmed
  item. With the comparison value \<open>alpha, beta\<close>, \<open>IS ONE OF\<close> matches the value
  \<open>alpha\<close> and does not match \<open>gamma\<close>.
\<close>

theorem is_one_of_substring:
  assumes "index rule rolloutComparisonAttribute = JStr comparisonAttribute"
    and "index rule rolloutComparisonValue = JStr comparisonValue"
    and "index rule rolloutVariationId = JStr variationId"
    and "GetAttribute user comparisonAttribute = u"
    and "u \<noteq> []"
  shows "(index rule rolloutComparator = JNum 0 \<longrightarrow>
            evaluateRule L user (JObj rule) =
              Inr (if \<exists>item\<in>set (Split comparisonValue (CHR '','')). sublist u (TrimSpace item)
                   then Some (index rule rolloutValue, variationId) else None)) \<and>
         (index rule rolloutComparator = JNum 1 \<longrightarrow>
            evaluateRule L user (JObj rule) =
              Inr (if \<not> (\<exists>item\<in>set (Split comparisonValue (CHR '','')). sublist u (TrimSpace item))
                   then Some (index rule rolloutValue, variationId) else None)) \<and>
         evaluateRule L (userWith ''alpha'') (JObj (targetingRule 0 ''alpha, beta'' v i)) =
           Inr (Some (v, i)) \<and>
         evaluateRule L (userWith ''gamma'') (JObj (targetingRule 0 ''alpha, beta'' v i)) =
           Inr None"
proof -
  have switch: "evaluateRule L user (JObj rule) =
     Inr (case switchComparator L comparator u comparisonValue of
            Match \<Rightarrow> Some (index rule rolloutValue, variationId)
          | FormatError \<Rightarrow> None
          | NoMatch \<Rightarrow> None)"
    if "index rule rolloutComparator = JNum comparator" and "- 1 < comparator" and "comparator < 18"
    for comparator
    using evaluateRule_switch [of rule variationId user u comparator L] assms that
    by simp
  have one: "evaluateRule L user (JObj rule) =
      Inr (if \<exists>item\<in>set (Split comparisonValue (CHR '','')). sublist u (TrimSpace item)
           then Some (index rule rolloutValue, variationId) else None)"
    if "index rule rolloutComparator = JNum 0"
    using switch [OF that] by (simp add: switchComparator_def oneOfLoop_iff)
  have none: "evaluateRule L user (JObj rule) =
      Inr (if \<not> (\<exists>item\<in>set (Split comparisonValue (CHR '','')). sublist u (TrimSpace item))
           then Some (index rule rolloutValue, variationId) else None)"
    if "index rule rolloutComparator = JNum 1"
    using switch [OF that] by (simp add: switchComparator_def notOneOfLoop_iff)
  have alpha: "evaluateRule L (userWith ''alpha'') (JObj (targetingRule 0 ''alpha, beta'' v i)) =
      Inr (Some (v, i))"
    by (simp add: rule_eval document_defs trim_eval)
  have gamma: "evaluateRule L (userWith ''gamma'') (JObj (targetingRule 0 ''alpha, beta'' v i)) =
      Inr None"
    by (simp add: rule_eval document_defs trim_eval)
  from one none alpha gamma show ?thesis by blast
qed

theorem is_one_of_substring_witness:
  "evaluateRule plainLib (userWith ''lph'')
     (JObj (targetingRule 0 ''alpha, beta'' (JStr ''on'') ''id1'')) =
     Inr (Some (JStr ''on'', ''id1'')) \<and>
   evaluateRule plainLib (userWith ''lph'')
     (JObj (targetingRule 1 ''alpha, beta'' (JStr ''on'') ''id1'')) = Inr None \<and>
   evaluateRule plainLib (userWith ''alpha'')
     (JObj (targetingRule 0 ''alpha, beta'' (JStr ''on'') ''id1'')) =
     Inr (Some (JStr ''on'', ''id1'')) \<and>
   evaluateRule plainLib (userWith ''gamma'')
     (JObj (targetingRule 0 ''alpha, beta'' (JStr ''on'') ''id1'')) = Inr None"
proof -
  have fields: "index (targetingRule k ''alpha, beta'' (JStr ''on'') ''id1'')
        rolloutComparisonAttribute = JStr ''x''"
    "index (targetingRule k ''alpha, beta'' (JStr ''on'') ''id1'') rolloutComparisonValue =
        JStr ''alpha, beta''"
    "index (targetingRule k ''alpha, beta'' (JStr ''on'') ''id1'') rolloutVariationId =
        JStr ''id1''"
    "index (targetingRule k ''alpha, beta'' (JStr ''on'') ''id1'') rolloutComparator = JNum k"
    "index (targetingRule k ''alpha, beta'' (JStr ''on'') ''id1'') rolloutValue = JStr ''on''"
    "GetAttribute (userWith ''lph'') ''x'' = ''lph''" for k
    by (simp_all add: document_defs)
  have items: "(\<exists>item\<in>set (Split ''alpha, beta'' (CHR '','')). sublist ''lph'' (TrimSpace item))"
    by (simp add: trim_eval Contains_iff_sublist [symmetric])
  show ?thesis
    using
      is_one_of_substring [of "targetingRule 0 ''alpha, beta'' (JStr ''on'') ''id1''" "''x''"
        "''alpha, beta''" "''id1''" "userWith ''lph''" "''lph''" plainLib "JStr ''on''" "''id1''",
        OF fields(1-3) fields(6)]
      is_one_of_substring [of "targetingRule 1 ''alpha, beta'' (JStr ''on'') ''id1''" "''x''"
        "''alpha, beta''" "''id1''" "userWith ''lph''" "''lph''" plainLib "JStr ''on''" "''id1''",
        OF fields(1-3) fields(6)]
    by (simp only: fields items) simp
qed


lemma asString_not_JStr: "(\<forall>s. v \<noteq> JStr s) \<Longrightarrow> asString v = ([], False)"
  by (cases v) simp_all

lemma asFloat64_not_JNum: "(\<forall>n. v \<noteq> JNum n) \<Longrightarrow> asFloat64 v = (0, False)"
  by (cases v) simp_all

text \<open>
  C10. The \<open>ok\<close> that the loop tests before it runs a comparator is that of the last
  of the four type assertions, the one of the variation id. So a rule whose variation id
  is a string, for a user whose value of the rule's attribute is not empty, is evaluated
  also when its comparator is absent or is not a number: the comparator is then 0 and
  the rule is run as \<open>IS ONE OF\<close>, on the comparison value that the assertion left
  (the empty string if that is not a string either). And a rule whose variation id is
  absent or not a string is never a match, whatever its other fields are.
\<close>

theorem ok_of_last_assertion:
  assumes "GetAttribute user (fst (asString (index rule rolloutComparisonAttribute))) = u"
    and "u \<noteq> []"
  shows "(index rule rolloutVariationId = JStr variationId \<longrightarrow>
            (\<forall>n. index rule rolloutComparator \<noteq> JNum n) \<longrightarrow>
            evaluateRule L user (JObj rule) =
              Inr (if \<exists>item\<in>set (Split (fst (asString (index rule rolloutComparisonValue)))
                                    (CHR '','')). sublist u (TrimSpace item)
                   then Some (index rule rolloutValue, variationId) else None)) \<and>
         ((\<forall>s. index rule rolloutVariationId \<noteq> JStr s) \<longrightarrow>
            (\<forall>result. evaluateRule L user (JObj rule) \<noteq> Inr (Some result)))"
proof -
  have evaluated: "evaluateRule L user (JObj rule) =
      Inr (if \<exists>item\<in>set (Split (fst (asString (index rule rolloutComparisonValue)))
                           (CHR '','')). sublist u (TrimSpace item)
           then Some (index rule rolloutValue, variationId) else None)"
    if "index rule rolloutVariationId = JStr variationId"
      and "\<forall>n. index rule rolloutComparator \<noteq> JNum n"
  proof -
    from that(2) have "fst (asFloat64 (index rule rolloutComparator)) = 0"
      by (simp add: asFloat64_not_JNum)
    moreover from that(1) have "asString (index rule rolloutVariationId) = (variationId, True)"
      by simp
    ultimately show ?thesis
      using evaluateRule_switch [of rule variationId user u 0 L] assms
      by (simp add: switchComparator_def oneOfLoop_iff)
  qed
  have skipped: "evaluateRule L user (JObj rule) \<noteq> Inr (Some result)"
    if "\<forall>s. index rule rolloutVariationId \<noteq> JStr s" for result
    using asString_not_JStr [OF that]
    by (simp add: evaluateRule_def Let_def split: sum.splits)
  from evaluated skipped show ?thesis by blast
qed

theorem ok_of_last_assertion_witness:
  "evaluateRule plainLib (userWith ''lph'')
     (JObj ((targetingRule 4 ''alpha, beta'' (JStr ''on'') ''id1'')(''t'' := None))) =
     Inr (Some (JStr ''on'', ''id1'')) \<and>
   evaluateRule plainLib (userWith ''lph'')
     (JObj ((targetingRule 4 ''alpha, beta'' (JStr ''on'') ''id1'')(''t'' \<mapsto> JStr ''4''))) =
     Inr (Some (JStr ''on'', ''id1'')) \<and>
   evaluateRule plainLib (userWith ''alpha'')
     (JObj ((targetingRule 0 ''alpha, beta'' (JStr ''on'') ''id1'')(''i'' := None))) \<noteq>
     Inr (Some (JStr ''on'', []))"
proof -
  let ?absent = "(targetingRule 4 ''alpha, beta'' (JStr ''on'') ''id1'')(''t'' := None)"
  let ?str = "(targetingRule 4 ''alpha, beta'' (JStr ''on'') ''id1'')(''t'' \<mapsto> JStr ''4'')"
  let ?noId = "(targetingRule 0 ''alpha, beta'' (JStr ''on'') ''id1'')(''i'' := None)"
  have absent: "GetAttribute (userWith ''lph'')
        (fst (asString (index ?absent rolloutComparisonAttribute))) = ''lph''"
    "index ?absent rolloutVariationId = JStr ''id1''"
    "\<forall>n. index ?absent rolloutComparator \<noteq> JNum n"
    "fst (asString (index ?absent rolloutComparisonValue)) = ''alpha, beta''"
    "index ?absent rolloutValue = JStr ''on''"
    by (simp_all add: document_defs)
  have str: "GetAttribute (userWith ''lph'')
        (fst (asString (index ?str rolloutComparisonAttribute))) = ''lph''"
    "index ?str rolloutVariationId = JStr ''id1''"
    "\<forall>n. index ?str rolloutComparator \<noteq> JNum n"
    "fst (asString (index ?str rolloutComparisonValue)) = ''alpha, beta''"
    "index ?str rolloutValue = JStr ''on''"
    by (simp_all add: document_defs)
  have noId: "GetAttribute (userWith ''alpha'')
        (fst (asString (index ?noId rolloutComparisonAttribute))) = ''alpha''"
    "\<forall>s. index ?noId rolloutVariationId \<noteq> JStr s"
    by (simp_all add: document_defs)
  have items: "(\<exists>item\<in>set (Split ''alpha, beta'' (CHR '','')). sublist ''lph'' (TrimSpace item))"
    by (simp add: trim_eval Contains_iff_sublist [symmetric])
  show ?thesis
    using
      ok_of_last_assertion [of "userWith ''lph''" ?absent "''lph''" "''id1''" plainLib,
        OF absent(1)]
      ok_of_last_assertion [of "userWith ''lph''" ?str "''lph''" "''id1''" plainLib,
        OF str(1)]
      ok_of_last_assertion [of "userWith ''alpha''" ?noId "''alpha''" "''id1''" plainLib,
        OF noId(1)]
      absent(2,3) str(2,3) noId(2) items
    by (simp only: absent(4,5) str(4,5)) simp
qed


section \<open>The order of the targeting rules\<close>

lemma rolloutLoop_no_match_prefix:
  assumes "\<forall>q\<in>set earlier. evaluateRule L user q = Inr None"
  shows "rolloutLoop L user (earlier @ rules) = rolloutLoop L user rules"
  using assms by (induction earlier) simp_all

lemma evaluateRule_empty_attribute:
  assumes "GetAttribute user (fst (asString (index rule rolloutComparisonAttribute))) = []"
    and "- 1 < fst (asFloat64 (index rule rolloutComparator))"
    and "fst (asFloat64 (index rule rolloutComparator)) < 18"
  shows "evaluateRule L user (JObj rule) = Inr None"
  using assms(1) log_in_range(2) [OF assms(2,3), of L]
  by (simp add: evaluateRule_def Let_def)

lemma evaluate_other_rules:
  assumes "evaluateRollout L node user = rolloutLoop L user rules"
  shows "evaluate L (JObj node) key (Some user) =
     evaluate L (JObj (node(settingRolloutRules \<mapsto> JArr rules))) key (Some user)"
proof -
  have "evaluateRollout L (node(settingRolloutRules \<mapsto> JArr rules)) user =
      rolloutLoop L user rules"
    by (simp add: evaluateRollout_def index_def)
  moreover have "evaluatePercentage L (node(settingRolloutRules \<mapsto> JArr rules)) key user =
      evaluatePercentage L node key user"
    by (simp add: evaluatePercentage_def index_def field_names)
  moreover have "baseValue (node(settingRolloutRules \<mapsto> JArr rules)) = baseValue node"
    by (simp add: baseValue_def index_def field_names)
  ultimately show ?thesis
    using assms by (simp add: evaluate_def split: sum.splits option.splits)
qed

text \<open>
  Within the table of comparator texts the rules are taken in the order of the document.
  For a user that is not \<open>nil\<close>: when no rule before \<open>r\<close> matches and the comparator test of
  \<open>r\<close> succeeds, \<open>evaluate\<close> returns the value and the variation id of \<open>r\<close>, whatever
  rules come later (they are not evaluated). A rule whose attribute the user does not
  have, or has with the empty value, is passed over as no match, and the evaluation goes
  on with the rules after it: the result is that of the node without the rules up to
  it. The comparator of such a rule is one of the eighteen kinds or is absent, so that
  it has a text in the table that the log line of the rule reads.
\<close>

theorem first_matching_rule_wins:
  assumes "index node settingRolloutRules = JArr (earlier @ r # later)"
    and "\<forall>q\<in>set earlier. evaluateRule L user q = Inr None"
  shows "(evaluateRule L user r = Inr (Some (v, i)) \<longrightarrow>
            evaluate L (JObj node) key (Some user) = Inr (v, i)) \<and>
         (r = JObj rule \<longrightarrow>
            GetAttribute user (fst (asString (index rule rolloutComparisonAttribute))) = [] \<longrightarrow>
            - 1 < fst (asFloat64 (index rule rolloutComparator)) \<longrightarrow>
            fst (asFloat64 (index rule rolloutComparator)) < 18 \<longrightarrow>
            evaluateRule L user r = Inr None \<and>
            evaluate L (JObj node) key (Some user) =
              evaluate L (JObj (node(settingRolloutRules \<mapsto> JArr later))) key (Some user))"
proof -
  have loop: "evaluateRollout L node user = rolloutLoop L user (r # later)"
    using assms by (simp add: evaluateRollout_def rolloutLoop_no_match_prefix)
  have wins: "evaluate L (JObj node) key (Some user) = Inr (v, i)"
    if "evaluateRule L user r = Inr (Some (v, i))"
    using loop that by (simp add: evaluate_def)
  have passed: "evaluateRule L user r = Inr None \<and>
      evaluate L (JObj node) key (Some user) =
        evaluate L (JObj (node(settingRolloutRules \<mapsto> JArr later))) key (Some user)"
    if "r = JObj rule"
      and "GetAttribute user (fst (asString (index rule rolloutComparisonAttribute))) = []"
      and "- 1 < fst (asFloat64 (index rule rolloutComparator))"
      and "fst (asFloat64 (index rule rolloutComparator)) < 18"
  proof -
    have none: "evaluateRule L user r = Inr None"
      using that evaluateRule_empty_attribute by simp
    with loop have "evaluateRollout L node user = rolloutLoop L user later"
      by simp
    then show ?thesis
      using none by (simp add: evaluate_other_rules)
  qed
  from wins passed show ?thesis by blast
qed

text \<open>Three rules: on an attribute that the user does not have, \<open>CONTAINS lph\<close>, and
  one with a comparator outside the table.\<close>

definition threeRules :: "json list" where
  "threeRules =
     [JObj ((targetingRule 2 ''al'' (JStr ''first'') ''id1'')(''a'' \<mapsto> JStr ''country'')),
      JObj (targetingRule 2 ''lph'' (JStr ''second'') ''id2''),
      JObj (targetingRule 99 ''alpha'' (JStr ''third'') ''id3'')]"

theorem first_matching_rule_wins_witness:
  "evaluate plainLib (JObj (settingNode threeRules [])) ''key'' (Some (userWith ''alpha'')) =
     Inr (JStr ''second'', ''id2'') \<and>
   evaluateRule plainLib (userWith ''alpha'') (hd threeRules) = Inr None \<and>
   evaluate plainLib (JObj (settingNode threeRules [])) ''key'' (Some (userWith ''alpha'')) =
     evaluate plainLib
       (JObj ((settingNode threeRules [])(settingRolloutRules \<mapsto> JArr (tl threeRules))))
       ''key'' (Some (userWith ''alpha''))"
proof -
  let ?first = "(targetingRule 2 ''al'' (JStr ''first'') ''id1'')(''a'' \<mapsto> JStr ''country'')"
  have rules: "index (settingNode threeRules []) settingRolloutRules =
      JArr ([hd threeRules] @ threeRules ! 1 # [threeRules ! 2])"
    "index (settingNode threeRules []) settingRolloutRules =
      JArr ([] @ hd threeRules # tl threeRules)"
    by (simp_all add: document_defs threeRules_def)
  have first: "hd threeRules = JObj ?first"
    "GetAttribute (userWith ''alpha'')
       (fst (asString (index ?first rolloutComparisonAttribute))) = []"
    "- 1 < fst (asFloat64 (index ?first rolloutComparator))"
    "fst (asFloat64 (index ?first rolloutComparator)) < 18"
    by (simp_all add: document_defs threeRules_def)
  have no_match: "\<forall>q\<in>set [hd threeRules]. evaluateRule plainLib (userWith ''alpha'') q = Inr None"
    by (simp add: threeRules_def rule_eval document_defs)
  have second: "evaluateRule plainLib (userWith ''alpha'') (threeRules ! 1) =
      Inr (Some (JStr ''second'', ''id2''))"
    by (simp add: threeRules_def rule_eval document_defs)
  show ?thesis
    using
      first_matching_rule_wins [of "settingNode threeRules []" "[hd threeRules]"
        "threeRules ! 1" "[threeRules ! 2]" plainLib "userWith ''alpha''" "JStr ''second''"
        "''id2''" "''key''", OF rules(1) no_match]
      first_matching_rule_wins [of "settingNode threeRules []" "[]"
        "hd threeRules" "tl threeRules" plainLib "userWith ''alpha''" "JStr ''second''"
        "''id2''" "''key''" ?first, OF rules(2)]
      second first
    by simp
qed


section \<open>The number comparators\<close>

text \<open>
  C8. A targeting rule with a number comparator (10 to 15) passes the user's value and
  the comparison value to the parser with every comma replaced by a dot, and compares
  the two numbers parsed: \<open>=\<close>, \<open><>\<close>, \<open><\<close>, \<open><=\<close>, \<open>>\<close>, \<open>>=\<close> in this
  order. The rule \<open>< (Number)\<close> with the comparison value \<open>10,5\<close>, for the user's value
  \<open>3.2\<close>, has \<open>10.5\<close> and \<open>3.2\<close> parsed and matches, as the number of \<open>3.2\<close> is less
  than the number of \<open>10.5\<close>.
\<close>

theorem number_comparators_replace_commas:
  assumes "index rule rolloutComparisonAttribute = JStr comparisonAttribute"
    and "index rule rolloutComparisonValue = JStr c"
    and "index rule rolloutVariationId = JStr variationId"
    and "index rule rolloutComparator = JNum comparator"
    and "comparator \<in> {10, 11, 12, 13, 14, 15}"
    and "GetAttribute user comparisonAttribute = u"
    and "u \<noteq> []"
  shows "evaluateRule L user (JObj rule) =
           Inr (case (ParseFloat L (map (\<lambda>ch. if ch = CHR '','' then CHR ''.'' else ch) u),
                      ParseFloat L (map (\<lambda>ch. if ch = CHR '','' then CHR ''.'' else ch) c)) of
                  (Some userDouble, Some cmpDouble) \<Rightarrow>
                    if (comparator = 10 \<and> float_eq userDouble cmpDouble) \<or>
                       (comparator = 11 \<and> \<not> float_eq userDouble cmpDouble) \<or>
                       (comparator = 12 \<and> float_lt userDouble cmpDouble) \<or>
                       (comparator = 13 \<and> float_le userDouble cmpDouble) \<or>
                       (comparator = 14 \<and> float_lt cmpDouble userDouble) \<or>
                       (comparator = 15 \<and> float_le cmpDouble userDouble)
                    then Some (index rule rolloutValue, variationId) else None
                | _ \<Rightarrow> None) \<and>
         (ParseFloat L ''3.2'' = Some x \<longrightarrow> ParseFloat L ''10.5'' = Some y \<longrightarrow> float_lt x y \<longrightarrow>
            evaluateRule L (userWith ''3.2'') (JObj (targetingRule 12 ''10,5'' v i)) =
              Inr (Some (v, i)))"
proof -
  from assms(5) have range: "- 1 < comparator" "comparator < 18"
    by auto
  have switch: "evaluateRule L user (JObj rule) =
     Inr (case switchComparator L comparator u c of
            Match \<Rightarrow> Some (index rule rolloutValue, variationId)
          | FormatError \<Rightarrow> None
          | NoMatch \<Rightarrow> None)"
    using evaluateRule_switch [of rule variationId user u comparator L] assms(1-4,6,7) range
    by simp
  have general: "evaluateRule L user (JObj rule) =
           Inr (case (ParseFloat L (map (\<lambda>ch. if ch = CHR '','' then CHR ''.'' else ch) u),
                      ParseFloat L (map (\<lambda>ch. if ch = CHR '','' then CHR ''.'' else ch) c)) of
                  (Some userDouble, Some cmpDouble) \<Rightarrow>
                    if (comparator = 10 \<and> float_eq userDouble cmpDouble) \<or>
                       (comparator = 11 \<and> \<not> float_eq userDouble cmpDouble) \<or>
                       (comparator = 12 \<and> float_lt userDouble cmpDouble) \<or>
                       (comparator = 13 \<and> float_le userDouble cmpDouble) \<or>
                       (comparator = 14 \<and> float_lt cmpDouble userDouble) \<or>
                       (comparator = 15 \<and> float_le cmpDouble userDouble)
                    then Some (index rule rolloutValue, variationId) else None
                | _ \<Rightarrow> None)"
    unfolding switch using assms(5)
    by (elim insertE emptyE) (simp_all add: switchComparator_def Replace_def split: option.splits)
  have example: "evaluateRule L (userWith ''3.2'') (JObj (targetingRule 12 ''10,5'' v i)) =
      Inr (Some (v, i))"
    if "ParseFloat L ''3.2'' = Some x" and "ParseFloat L ''10.5'' = Some y" and "float_lt x y"
    using that by (simp add: rule_eval document_defs Replace_def)
  from general example show ?thesis by blast
qed

lemmas decimal_eval = plainLib_def plainDecimal_def decimalNumber_def

theorem number_comparators_replace_commas_witness:
  "evaluateRule plainLib (userWith ''1,50'')
     (JObj (targetingRule 10 ''1.5'' (JStr ''on'') ''id1'')) = Inr (Some (JStr ''on'', ''id1'')) \<and>
   evaluateRule plainLib (userWith ''3.2'')
     (JObj (targetingRule 12 ''10,5'' (JStr ''on'') ''id1'')) = Inr (Some (JStr ''on'', ''id1'')) \<and>
   ParseFloat plainLib ''3.2'' = Some (Finite (16 / 5)) \<and>
   ParseFloat plainLib ''10.5'' = Some (Finite (21 / 2))"
proof -
  let ?rule = "targetingRule 10 ''1.5'' (JStr ''on'') ''id1''"
  have fields: "index ?rule rolloutComparisonAttribute = JStr ''x''"
    "index ?rule rolloutComparisonValue = JStr ''1.5''"
    "index ?rule rolloutVariationId = JStr ''id1''"
    "index ?rule rolloutComparator = JNum 10"
    "(10 :: rat) \<in> {10, 11, 12, 13, 14, 15}"
    "GetAttribute (userWith ''1,50'') ''x'' = ''1,50''"
    "''1,50'' \<noteq> []"
    by (simp_all add: document_defs)
  have val: "index ?rule rolloutValue = JStr ''on''"
    by (simp add: document_defs)
  have parsed: "ParseFloat plainLib (map (\<lambda>ch. if ch = CHR '','' then CHR ''.'' else ch) ''1,50'') =
      Some (Finite (3 / 2))"
    "ParseFloat plainLib (map (\<lambda>ch. if ch = CHR '','' then CHR ''.'' else ch) ''1.5'') =
      Some (Finite (3 / 2))"
    "ParseFloat plainLib ''3.2'' = Some (Finite (16 / 5))"
    "ParseFloat plainLib ''10.5'' = Some (Finite (21 / 2))"
    by (simp_all add: decimal_eval)
  have less: "float_lt (Finite (16 / 5)) (Finite (21 / 2))"
    by simp
  show ?thesis
    using number_comparators_replace_commas [of ?rule "''x''" "''1.5''" "''id1''" 10
        "userWith ''1,50''" "''1,50''" plainLib "Finite (16 / 5)" "Finite (21 / 2)"
        "JStr ''on''" "''id1''", OF fields] less
    by (simp only: parsed val) simp
qed


section \<open>Values that do not parse\<close>

lemma semVerLoop_malformed_item:
  assumes "\<exists>item\<in>set separated. TrimSpace item \<noteq> [] \<and> semver_Make L (TrimSpace item) = None"
  shows "semVerLoop L userVersion separated matched = None"
  using assms
proof (induction separated arbitrary: matched)
  case Nil
  then show ?case by simp
next
  case (Cons item separated)
  show ?case
  proof (cases "TrimSpace item \<noteq> [] \<and> semver_Make L (TrimSpace item) = None")
    case True
    then show ?thesis by simp
  next
    case False
    with Cons.prems have "\<exists>item\<in>set separated.
        TrimSpace item \<noteq> [] \<and> semver_Make L (TrimSpace item) = None"
      by auto
    then have "semVerLoop L userVersion separated m = None" for m
      by (rule Cons.IH)
    then show ?thesis by (simp split: option.splits)
  qed
qed

lemma semVerLoop_versions:
  assumes "\<forall>item\<in>set separated. TrimSpace item \<noteq> [] \<longrightarrow> semver_Make L (TrimSpace item) \<noteq> None"
  shows "\<exists>m. semVerLoop L userVersion separated matched = Some m"
  using assms by (induction separated arbitrary: matched) (auto split: option.splits)

text \<open>The \<open>switch\<close> answers \<open>FormatError\<close> in each of these cases.\<close>

lemma switchComparator_FormatError:
  assumes "(comparator \<in> {4, 5, 6, 7, 8, 9} \<and> semver_Make L u = None) \<or>
     (comparator \<in> {10, 11, 12, 13, 14, 15} \<and>
        ParseFloat L (Replace u (CHR '','') (CHR ''.'')) = None) \<or>
     (comparator \<in> {4, 5} \<and>
        (\<exists>item\<in>set (Split c (CHR '','')).
            TrimSpace item \<noteq> [] \<and> semver_Make L (TrimSpace item) = None)) \<or>
     (comparator \<in> {6, 7, 8, 9} \<and> semver_Make L (TrimSpace c) = None) \<or>
     (comparator \<in> {10, 11, 12, 13, 14, 15} \<and>
        ParseFloat L (Replace c (CHR '','') (CHR ''.'')) = None)"
  shows "switchComparator L comparator u c = FormatError"
  using assms
proof (elim disjE conjE, goal_cases user_version user_number item version number)
  case user_version
  then show ?case
    by (elim insertE emptyE) (simp_all add: switchComparator_def)
next
  case user_number
  then show ?case
    by (elim insertE emptyE) (simp_all add: switchComparator_def)
next
  case item
  from item(2) have "semVerLoop L userVersion (Split c (CHR '','')) False = None"
    for userVersion
    by (rule semVerLoop_malformed_item)
  with item(1) show ?case
    by (elim insertE emptyE) (simp_all add: switchComparator_def split: option.splits)
next
  case version
  then show ?case
    by (elim insertE emptyE) (simp_all add: switchComparator_def split: option.splits)
next
  case number
  then show ?case
    by (elim insertE emptyE) (simp_all add: switchComparator_def split: option.splits)
qed

text \<open>
  C6. For a targeting rule with a SemVer or a number comparator (4 to 15): a user's
  value that is no version, or no number, makes the rule no match, and the evaluation
  goes on with the next rule; for the set comparators of SemVer (4 and 5) an item of the
  comparison list that is not empty once trimmed and is no version makes the whole rule
  no match, whatever the other items are; for the relational comparators a comparison
  value that is no version, or no number, does the same. No rule with one of these
  comparators makes \<open>evaluate\<close> panic.
\<close>

theorem parse_failure_skips_rule:
  assumes "index rule rolloutComparisonAttribute = JStr comparisonAttribute"
    and "index rule rolloutComparisonValue = JStr c"
    and "index rule rolloutVariationId = JStr variationId"
    and "index rule rolloutComparator = JNum comparator"
    and "GetAttribute user comparisonAttribute = u"
    and "u \<noteq> []"
  shows "((comparator \<in> {4, 5, 6, 7, 8, 9} \<and> semver_Make L u = None) \<or>
          (comparator \<in> {10, 11, 12, 13, 14, 15} \<and>
             ParseFloat L (Replace u (CHR '','') (CHR ''.'')) = None) \<or>
          (comparator \<in> {4, 5} \<and>
             (\<exists>item\<in>set (Split c (CHR '','')).
                 TrimSpace item \<noteq> [] \<and> semver_Make L (TrimSpace item) = None)) \<or>
          (comparator \<in> {6, 7, 8, 9} \<and> semver_Make L (TrimSpace c) = None) \<or>
          (comparator \<in> {10, 11, 12, 13, 14, 15} \<and>
             ParseFloat L (Replace c (CHR '','') (CHR ''.'')) = None) \<longrightarrow>
            evaluateRule L user (JObj rule) = Inr None \<and>
            rolloutLoop L user (JObj rule # rules) = rolloutLoop L user rules) \<and>
         (comparator \<in> {4, 5, 6, 7, 8, 9, 10, 11, 12, 13, 14, 15} \<longrightarrow>
            (\<forall>e. evaluateRule L user (JObj rule) \<noteq> Inl e))"
proof -
  have switch: "evaluateRule L user (JObj rule) =
     Inr (case switchComparator L comparator u c of
            Match \<Rightarrow> Some (index rule rolloutValue, variationId)
          | FormatError \<Rightarrow> None
          | NoMatch \<Rightarrow> None)"
    if "comparator \<in> {4, 5, 6, 7, 8, 9, 10, 11, 12, 13, 14, 15}"
  proof -
    from that have "- 1 < comparator" "comparator < 18" by auto
    then show ?thesis
      using evaluateRule_switch [of rule variationId user u comparator L] assms by simp
  qed
  have skip: "evaluateRule L user (JObj rule) = Inr None \<and>
      rolloutLoop L user (JObj rule # rules) = rolloutLoop L user rules"
    if failure: "(comparator \<in> {4, 5, 6, 7, 8, 9} \<and> semver_Make L u = None) \<or>
       (comparator \<in> {10, 11, 12, 13, 14, 15} \<and>
          ParseFloat L (Replace u (CHR '','') (CHR ''.'')) = None) \<or>
       (comparator \<in> {4, 5} \<and>
          (\<exists>item\<in>set (Split c (CHR '','')).
              TrimSpace item \<noteq> [] \<and> semver_Make L (TrimSpace item) = None)) \<or>
       (comparator \<in> {6, 7, 8, 9} \<and> semver_Make L (TrimSpace c) = None) \<or>
       (comparator \<in> {10, 11, 12, 13, 14, 15} \<and>
          ParseFloat L (Replace c (CHR '','') (CHR ''.'')) = None)"
  proof -
    from failure have "comparator \<in> {4, 5, 6, 7, 8, 9, 10, 11, 12, 13, 14, 15}"
      by auto
    then have "evaluateRule L user (JObj rule) = Inr None"
      using switch switchComparator_FormatError [OF failure] by simp
    then show ?thesis by simp
  qed
  from skip switch show ?thesis by auto
qed


lemma targetingRule_fields:
  "index (targetingRule k c v i) rolloutComparisonAttribute = JStr ''x''"
  "index (targetingRule k c v i) rolloutComparisonValue = JStr c"
  "index (targetingRule k c v i) rolloutVariationId = JStr i"
  "index (targetingRule k c v i) rolloutComparator = JNum k"
  "GetAttribute (userWith x) ''x'' = x"
  by (simp_all add: document_defs)

lemmas version_eval = plainLib_def plainVersion_def decimalNumber_def

theorem parse_failure_skips_rule_witness:
  "evaluateRule plainLib (userWith ''abc'')
     (JObj (targetingRule 6 ''1.0.0'' (JStr ''on'') ''id1'')) = Inr None \<and>
   evaluateRule plainLib (userWith ''1.0.0'')
     (JObj (targetingRule 4 ''1.0.0, bad'' (JStr ''on'') ''id1'')) = Inr None \<and>
   rolloutLoop plainLib (userWith ''1.0.0'')
     [JObj (targetingRule 4 ''1.0.0, bad'' (JStr ''on'') ''id1''),
      JObj (targetingRule 4 ''1.0.0'' (JStr ''next'') ''id2'')] =
     Inr (Some (JStr ''next'', ''id2'')) \<and>
   evaluateRule plainLib (userWith ''3.2'')
     (JObj (targetingRule 12 ''ten'' (JStr ''on'') ''id1'')) = Inr None"
proof -
  have user_version: "(6 :: rat) \<in> {4, 5, 6, 7, 8, 9} \<and> semver_Make plainLib ''abc'' = None"
    by (simp add: version_eval)
  have bad: "'' bad'' \<in> set (Split ''1.0.0, bad'' (CHR '',''))"
    "TrimSpace '' bad'' = ''bad''" "semver_Make plainLib ''bad'' = None"
    by (simp_all add: version_eval trim_eval)
  then have "TrimSpace '' bad'' \<noteq> [] \<and> semver_Make plainLib (TrimSpace '' bad'') = None"
    by simp
  with bad(1) have item: "(4 :: rat) \<in> {4, 5} \<and>
      (\<exists>item\<in>set (Split ''1.0.0, bad'' (CHR '','')).
          TrimSpace item \<noteq> [] \<and> semver_Make plainLib (TrimSpace item) = None)"
    by blast
  have number: "(12 :: rat) \<in> {10, 11, 12, 13, 14, 15} \<and>
      ParseFloat plainLib (Replace ''ten'' (CHR '','') (CHR ''.'')) = None"
    by (simp add: decimal_eval Replace_def)
  have following: "rolloutLoop plainLib (userWith ''1.0.0'')
      [JObj (targetingRule 4 ''1.0.0'' (JStr ''next'') ''id2'')] =
      Inr (Some (JStr ''next'', ''id2''))"
    by (simp add: rule_eval document_defs version_eval trim_eval)
  have ne: "''abc'' \<noteq> []" "''1.0.0'' \<noteq> []" "''3.2'' \<noteq> []"
    by simp_all
  have version: "evaluateRule plainLib (userWith ''abc'')
      (JObj (targetingRule 6 ''1.0.0'' (JStr ''on'') ''id1'')) = Inr None"
    using user_version
      parse_failure_skips_rule [where rule = "targetingRule 6 ''1.0.0'' (JStr ''on'') ''id1''"
        and user = "userWith ''abc''" and L = plainLib and rules = "[]",
        OF targetingRule_fields ne(1)]
    by blast
  have items: "evaluateRule plainLib (userWith ''1.0.0'')
      (JObj (targetingRule 4 ''1.0.0, bad'' (JStr ''on'') ''id1'')) = Inr None \<and>
    rolloutLoop plainLib (userWith ''1.0.0'')
      (JObj (targetingRule 4 ''1.0.0, bad'' (JStr ''on'') ''id1'') #
       [JObj (targetingRule 4 ''1.0.0'' (JStr ''next'') ''id2'')]) =
    rolloutLoop plainLib (userWith ''1.0.0'')
      [JObj (targetingRule 4 ''1.0.0'' (JStr ''next'') ''id2'')]"
    using item
      parse_failure_skips_rule [where rule = "targetingRule 4 ''1.0.0, bad'' (JStr ''on'') ''id1''"
        and user = "userWith ''1.0.0''" and L = plainLib
        and rules = "[JObj (targetingRule 4 ''1.0.0'' (JStr ''next'') ''id2'')]",
        OF targetingRule_fields ne(2)]
    by blast
  have numbers: "evaluateRule plainLib (userWith ''3.2'')
      (JObj (targetingRule 12 ''ten'' (JStr ''on'') ''id1'')) = Inr None"
    using number
      parse_failure_skips_rule [where rule = "targetingRule 12 ''ten'' (JStr ''on'') ''id1''"
        and user = "userWith ''3.2''" and L = plainLib and rules = "[]",
        OF targetingRule_fields ne(3)]
    by blast
  from version items numbers following show ?thesis
    by simp
qed

section \<open>The percentage rules\<close>

text \<open>The digest has twenty bytes, so that its hexadecimal form has the seven digits
  that \<open>evaluate\<close> slices off.\<close>

lemma be_bytes_bytes: "\<forall>b\<in>set (be_bytes w). 0 \<le> b \<and> b < 256"
  by (simp add: be_bytes_def)

lemma sha1_Sum_bytes:
  "\<exists>b0 b1 b2 b3 rest. sha1_Sum s = b0 # b1 # b2 # b3 # rest \<and>
      0 \<le> b0 \<and> b0 < 256 \<and> 0 \<le> b1 \<and> b1 < 256 \<and> 0 \<le> b2 \<and> b2 < 256 \<and> 0 \<le> b3 \<and> b3 < 256"
proof -
  obtain a b c d e where
    "blocks (0x67452301, 0xEFCDAB89, 0x98BADCFE, 0x10325476, 0xC3D2E1F0) (sha1_pad (map of_char s)) =
       (a, b, c, d, e)"
    using prod_cases5 by blast
  then show ?thesis
    by (simp add: sha1_Sum_def be_bytes_def)
qed

lemma length_sha1_Sum: "length (sha1_Sum s) = 20"
proof -
  obtain a b c d e where
    "blocks (0x67452301, 0xEFCDAB89, 0x98BADCFE, 0x10325476, 0xC3D2E1F0) (sha1_pad (map of_char s)) =
       (a, b, c, d, e)"
    using prod_cases5 by blast
  then show ?thesis
    by (simp add: sha1_Sum_def be_bytes_def)
qed

lemma length_hex_EncodeToString: "length (hex_EncodeToString bs) = 2 * length bs"
  by (induction bs) (simp_all add: hex_EncodeToString_def)

text \<open>So the slice \<open>[:7]\<close> of the hexadecimal form is within its forty digits.\<close>

lemma length_hash: "length (hex_EncodeToString (sha1_Sum s)) = 40"
  by (simp add: length_hex_EncodeToString length_sha1_Sum)

lemma hexDigit_hextable:
  "map hexDigit hextable = map (Some \<circ> int) [0, 1, 2, 3, 4, 5, 6, 7, 8, 9, 10, 11, 12, 13, 14, 15]"
  by (simp add: hextable_def hexDigit_def)

lemma upt_16: "[0, 1, 2, 3, 4, 5, 6, 7, 8, 9, 10, 11, 12, 13, 14, 15] = [0..<16]"
  by (simp add: upt_rec)

lemma hexDigit_nth:
  assumes "0 \<le> n" and "n < 16"
  shows "hexDigit (hextable ! nat n) = Some n"
proof -
  from assms have less: "nat n < 16" by simp
  have "length hextable = 16" by (simp add: hextable_def)
  with less have "hexDigit (hextable ! nat n) = map hexDigit hextable ! nat n"
    by (simp only: nth_map)
  also have "\<dots> = map (Some \<circ> int) [0..<16] ! nat n"
    by (simp only: hexDigit_hextable upt_16)
  also have "\<dots> = Some (int (nat n))"
    using less by simp
  finally show ?thesis using assms by simp
qed

lemma hex_step:
  fixes a d m :: int
  assumes "0 \<le> a \<and> a < m" and "0 \<le> d \<and> d < 16"
  shows "0 \<le> a * 16 + d \<and> a * 16 + d < m * 16"
  using assms by linarith

lemma ParseInt16_seven:
  assumes "hexDigit c0 = Some d0" "hexDigit c1 = Some d1" "hexDigit c2 = Some d2"
    "hexDigit c3 = Some d3" "hexDigit c4 = Some d4" "hexDigit c5 = Some d5" "hexDigit c6 = Some d6"
    and "0 \<le> d0 \<and> d0 < 16" "0 \<le> d1 \<and> d1 < 16" "0 \<le> d2 \<and> d2 < 16" "0 \<le> d3 \<and> d3 < 16"
      "0 \<le> d4 \<and> d4 < 16" "0 \<le> d5 \<and> d5 < 16" "0 \<le> d6 \<and> d6 < 16"
  shows "ParseInt16 [c0, c1, c2, c3, c4, c5, c6] =
     Some ((((((d0 * 16 + d1) * 16 + d2) * 16 + d3) * 16 + d4) * 16 + d5) * 16 + d6) \<and>
     0 \<le> (((((d0 * 16 + d1) * 16 + d2) * 16 + d3) * 16 + d4) * 16 + d5) * 16 + d6 \<and>
     (((((d0 * 16 + d1) * 16 + d2) * 16 + d3) * 16 + d4) * 16 + d5) * 16 + d6 < 268435456"
proof -
  have "hexDigit (CHR ''-'') = None" "hexDigit (CHR ''+'') = None"
    by (simp_all add: hexDigit_def)
  with assms(1) have sign: "c0 \<noteq> CHR ''-''" "c0 \<noteq> CHR ''+''"
    by auto
  have digits: "hexDigits 0 [c0, c1, c2, c3, c4, c5, c6] =
      Some ((((((d0 * 16 + d1) * 16 + d2) * 16 + d3) * 16 + d4) * 16 + d5) * 16 + d6)"
    using assms(1-7) by simp
  note b1 = hex_step [OF assms(8) assms(9)]
  note b2 = hex_step [OF b1 assms(10)]
  note b3 = hex_step [OF b2 assms(11)]
  note b4 = hex_step [OF b3 assms(12)]
  note b5 = hex_step [OF b4 assms(13)]
  note b6 = hex_step [OF b5 assms(14)]
  from b6 have bound:
    "0 \<le> (((((d0 * 16 + d1) * 16 + d2) * 16 + d3) * 16 + d4) * 16 + d5) * 16 + d6 \<and>
     (((((d0 * 16 + d1) * 16 + d2) * 16 + d3) * 16 + d4) * 16 + d5) * 16 + d6 < 268435456"
    by simp
  then have "\<not> 9223372036854775808 \<le>
      (((((d0 * 16 + d1) * 16 + d2) * 16 + d3) * 16 + d4) * 16 + d5) * 16 + d6"
    by linarith
  then have "ParseInt16 [c0, c1, c2, c3, c4, c5, c6] =
     Some ((((((d0 * 16 + d1) * 16 + d2) * 16 + d3) * 16 + d4) * 16 + d5) * 16 + d6)"
    using sign digits by (simp add: ParseInt16_def)
  with bound show ?thesis by simp
qed

text \<open>The seven digits are the first 28 bits of the digest.\<close>

lemma nibbles:
  fixes b :: int
  assumes "0 \<le> b \<and> b < 256"
  shows "0 \<le> b div 16 mod 16 \<and> b div 16 mod 16 < 16" and "0 \<le> b mod 16 \<and> b mod 16 < 16"
    and "b div 16 mod 16 = b div 16" and "(b div 16) * 16 + b mod 16 = b"
proof -
  from assms have "b div 16 \<le> 255 div 16"
    by (intro zdiv_mono1) simp_all
  moreover from assms have "0 \<le> b div 16"
    by (simp add: pos_imp_zdiv_nonneg_iff)
  ultimately show "b div 16 mod 16 = b div 16"
    by simp
qed simp_all


lemma seven_digits_value:
  fixes b0 b1 b2 :: int
  assumes "h0 * 16 + l0 = b0" and "h1 * 16 + l1 = b1" and "h2 * 16 + l2 = b2"
  shows "(((((h0 * 16 + l0) * 16 + h1) * 16 + l1) * 16 + h2) * 16 + l2) * 16 + h3 =
     ((b0 * 256 + b1) * 256 + b2) * 16 + h3"
proof -
  have "(((((h0 * 16 + l0) * 16 + h1) * 16 + l1) * 16 + h2) * 16 + l2) * 16 + h3 =
      (((h0 * 16 + l0) * 256 + (h1 * 16 + l1)) * 256 + (h2 * 16 + l2)) * 16 + h3"
    by (simp add: algebra_simps)
  then show ?thesis
    by (simp only: assms)
qed

lemma hashNumber_value:
  "\<exists>b0 b1 b2 b3 rest.
      sha1_Sum (key @ identifier user) = b0 # b1 # b2 # b3 # rest \<and>
      hashNumber key user = Some (((b0 * 256 + b1) * 256 + b2) * 16 + b3 div 16) \<and>
      0 \<le> ((b0 * 256 + b1) * 256 + b2) * 16 + b3 div 16 \<and>
      ((b0 * 256 + b1) * 256 + b2) * 16 + b3 div 16 < 268435456"
proof -
  obtain b0 b1 b2 b3 rest where
    sum: "sha1_Sum (key @ identifier user) = b0 # b1 # b2 # b3 # rest"
    and b: "0 \<le> b0 \<and> b0 < 256" "0 \<le> b1 \<and> b1 < 256" "0 \<le> b2 \<and> b2 < 256" "0 \<le> b3 \<and> b3 < 256"
    using sha1_Sum_bytes [of "key @ identifier user"] by blast
  let ?h = "\<lambda>n. hextable ! nat n"
  have seven: "take 7 (hex_EncodeToString (b0 # b1 # b2 # b3 # rest)) =
      [?h (b0 div 16 mod 16), ?h (b0 mod 16), ?h (b1 div 16 mod 16), ?h (b1 mod 16),
       ?h (b2 div 16 mod 16), ?h (b2 mod 16), ?h (b3 div 16 mod 16)]"
    by (simp add: hex_EncodeToString_def)
  note n0 = nibbles [OF b(1)] and n1 = nibbles [OF b(2)] and n2 = nibbles [OF b(3)]
    and n3 = nibbles [OF b(4)]
  have digit: "hexDigit (?h n) = Some n" if "0 \<le> n \<and> n < 16" for n
    using that by (simp add: hexDigit_nth)
  note parsed = ParseInt16_seven
    [OF digit [OF n0(1)] digit [OF n0(2)] digit [OF n1(1)] digit [OF n1(2)] digit [OF n2(1)]
      digit [OF n2(2)] digit [OF n3(1)] n0(1) n0(2) n1(1) n1(2) n2(1) n2(2) n3(1)]
  have halves: "b0 div 16 mod 16 * 16 + b0 mod 16 = b0" "b1 div 16 mod 16 * 16 + b1 mod 16 = b1"
    "b2 div 16 mod 16 * 16 + b2 mod 16 = b2"
    by (simp_all only: n0(3,4) n1(3,4) n2(3,4))
  have "(((((b0 div 16 mod 16 * 16 + b0 mod 16) * 16 + b1 div 16 mod 16) * 16 + b1 mod 16) * 16 +
      b2 div 16 mod 16) * 16 + b2 mod 16) * 16 + b3 div 16 mod 16 =
      ((b0 * 256 + b1) * 256 + b2) * 16 + b3 div 16"
    by (simp only: seven_digits_value [OF halves] n3(3))
  with parsed have "ParseInt16 [?h (b0 div 16 mod 16), ?h (b0 mod 16), ?h (b1 div 16 mod 16),
      ?h (b1 mod 16), ?h (b2 div 16 mod 16), ?h (b2 mod 16), ?h (b3 div 16 mod 16)] =
      Some (((b0 * 256 + b1) * 256 + b2) * 16 + b3 div 16) \<and>
      0 \<le> ((b0 * 256 + b1) * 256 + b2) * 16 + b3 div 16 \<and>
      ((b0 * 256 + b1) * 256 + b2) * 16 + b3 div 16 < 268435456"
    by (simp only:)
  then have "hashNumber key user = Some (((b0 * 256 + b1) * 256 + b2) * 16 + b3 div 16) \<and>
      0 \<le> ((b0 * 256 + b1) * 256 + b2) * 16 + b3 div 16 \<and>
      ((b0 * 256 + b1) * 256 + b2) * 16 + b3 div 16 < 268435456"
    by (simp only: hashNumber_def sum seven)
  with sum show ?thesis by blast
qed

lemma go_rem_nonneg: "0 \<le> n \<Longrightarrow> go_rem n 100 = n mod 100"
  by (simp add: go_rem_def sgn_if)

lemma int64_wrap_id:
  "- 9223372036854775808 \<le> n \<Longrightarrow> n < 9223372036854775808 \<Longrightarrow> int64_wrap n = n"
  by (simp add: int64_wrap_def)

text \<open>What the loop adds to the bucket at an entry of the percentage rules: the
  \<open>int64\<close> of its percentage, and nothing at an entry that it passes over.\<close>

definition percentageOf :: "'v lib \<Rightarrow> json \<Rightarrow> int" where
  "percentageOf L r =
     (case r of
        JObj rule \<Rightarrow>
          if snd (asFloat64 (index rule percentageItemPercentage))
          then int64 L (fst (asFloat64 (index rule percentageItemPercentage))) else 0
      | _ \<Rightarrow> 0)"

text \<open>For a percentage rule of the data model, whose percentage is a whole number
  between 0 and 100, it is that number.\<close>

lemma percentageOf_whole:
  assumes "index rule percentageItemPercentage = JNum (of_int n)"
    and "0 \<le> n" and "n \<le> 100"
  shows "percentageOf L (JObj rule) = n"
  using assms by (simp add: percentageOf_def int64_def truncateFloat_def)

lemma percentageLoop_step:
  assumes "0 \<le> percentageOf L r" and "percentageOf L r \<le> 100"
    and "0 \<le> bucket" and "bucket \<le> scaled" and "scaled < 100"
  shows "percentageLoop L scaled bucket (r # rules) =
     (if scaled < bucket + percentageOf L r
      then (case r of
              JObj rule \<Rightarrow> Some (index rule percentageItemValue,
                                  extractVariationId (index rule percentageItemVariationId))
            | _ \<Rightarrow> None)
      else percentageLoop L scaled (bucket + percentageOf L r) rules)"
proof (cases r)
  case (JObj rule)
  show ?thesis
  proof (cases "snd (asFloat64 (index rule percentageItemPercentage))")
    case True
    with JObj have w: "percentageOf L r =
        int64 L (fst (asFloat64 (index rule percentageItemPercentage)))"
      by (simp add: percentageOf_def)
    have "int64_wrap (bucket + percentageOf L r) = bucket + percentageOf L r"
      using assms by (simp add: int64_wrap_id)
    with True JObj show ?thesis
      by (simp add: w [symmetric])
  next
    case False
    with JObj have "percentageOf L r = 0"
      by (simp add: percentageOf_def)
    with False JObj assms(4) show ?thesis
      by simp
  qed
qed (use assms(4) in \<open>simp_all add: percentageOf_def\<close>)

lemma percentageLoop_first:
  assumes "\<forall>r\<in>set rules. 0 \<le> percentageOf L r \<and> percentageOf L r \<le> 100"
    and "0 \<le> bucket" and "bucket \<le> scaled" and "scaled < 100"
    and "i < length rules"
    and "\<forall>j<i. bucket + sum_list (map (percentageOf L) (take (Suc j) rules)) \<le> scaled"
    and "scaled < bucket + sum_list (map (percentageOf L) (take (Suc i) rules))"
  shows "\<exists>rule. rules ! i = JObj rule \<and>
     percentageLoop L scaled bucket rules =
       Some (index rule percentageItemValue,
             extractVariationId (index rule percentageItemVariationId))"
  using assms
proof (induction rules arbitrary: bucket i)
  case Nil
  then show ?case by simp
next
  case (Cons r rules)
  from Cons.prems(1) have w: "0 \<le> percentageOf L r" "percentageOf L r \<le> 100"
    by simp_all
  note step = percentageLoop_step [OF w Cons.prems(2,3,4), of rules]
  show ?case
  proof (cases i)
    case 0
    with Cons.prems(7) have less: "scaled < bucket + percentageOf L r"
      by simp
    with Cons.prems(3) have "percentageOf L r \<noteq> 0"
      by auto
    then obtain rule where "r = JObj rule"
      by (cases r) (simp_all add: percentageOf_def)
    with step less 0 show ?thesis by simp
  next
    case (Suc k)
    with Cons.prems(6) have "bucket + sum_list (map (percentageOf L) (take (Suc 0) (r # rules)))
        \<le> scaled"
      by blast
    then have le: "bucket + percentageOf L r \<le> scaled"
      by simp
    have "\<forall>j<k. bucket + percentageOf L r +
        sum_list (map (percentageOf L) (take (Suc j) rules)) \<le> scaled"
    proof (intro allI impI)
      fix j assume "j < k"
      then have "Suc j < i" using Suc by simp
      with Cons.prems(6) have
        "bucket + sum_list (map (percentageOf L) (take (Suc (Suc j)) (r # rules))) \<le> scaled"
        by blast
      then show "bucket + percentageOf L r +
          sum_list (map (percentageOf L) (take (Suc j) rules)) \<le> scaled"
        by simp
    qed
    moreover from Cons.prems(7) Suc have
      "scaled < bucket + percentageOf L r + sum_list (map (percentageOf L) (take (Suc k) rules))"
      by simp
    moreover from Cons.prems(5) Suc have "k < length rules"
      by simp
    moreover from Cons.prems(1) have
      "\<forall>r\<in>set rules. 0 \<le> percentageOf L r \<and> percentageOf L r \<le> 100"
      by simp
    moreover from Cons.prems(2) w(1) have "0 \<le> bucket + percentageOf L r"
      by simp
    ultimately obtain rule where "rules ! k = JObj rule"
      "percentageLoop L scaled (bucket + percentageOf L r) rules =
         Some (index rule percentageItemValue,
               extractVariationId (index rule percentageItemVariationId))"
      using Cons.IH [of "bucket + percentageOf L r" k] le Cons.prems(4) by blast
    with step le Suc show ?thesis by simp
  qed
qed


text \<open>
  C2. For a node with a sequence of percentage rules that is not empty, every key and a
  user for whom no targeting rule matched: the number that \<open>evaluate\<close> parses from the
  first seven hexadecimal digits of the SHA-1 of \<open>key + user.identifier\<close> is the first 28
  bits of the digest; the bucket is that number modulo 100 and lies in \<open>[0, 100)\<close>; and
  \<open>evaluate\<close> returns the value and the variation id of the first rule, in the order of
  the document, at which the sum of the percentages up to and including it is greater
  than the bucket. The percentages are those of the data model, between 0 and 100.
\<close>

theorem percentage_bucket:
  assumes "index node settingRolloutPercentageItems = JArr percentageRules"
    and "percentageRules \<noteq> []"
    and "evaluateRollout L node user = Inr None"
    and "\<forall>r\<in>set percentageRules. 0 \<le> percentageOf L r \<and> percentageOf L r \<le> 100"
  shows "\<exists>b0 b1 b2 b3 rest bucket.
      sha1_Sum (key @ identifier user) = b0 # b1 # b2 # b3 # rest \<and>
      hashNumber key user = Some (((b0 * 256 + b1) * 256 + b2) * 16 + b3 div 16) \<and>
      bucket = (((b0 * 256 + b1) * 256 + b2) * 16 + b3 div 16) mod 100 \<and>
      0 \<le> bucket \<and> bucket < 100 \<and>
      (\<forall>i<length percentageRules.
          (\<forall>j<i. sum_list (map (percentageOf L) (take (Suc j) percentageRules)) \<le> bucket) \<longrightarrow>
          bucket < sum_list (map (percentageOf L) (take (Suc i) percentageRules)) \<longrightarrow>
          (\<exists>rule. percentageRules ! i = JObj rule \<and>
             evaluate L (JObj node) key (Some user) =
               Inr (index rule percentageItemValue,
                    extractVariationId (index rule percentageItemVariationId))))"
proof -
  obtain b0 b1 b2 b3 rest where
    sum: "sha1_Sum (key @ identifier user) = b0 # b1 # b2 # b3 # rest"
    and num: "hashNumber key user = Some (((b0 * 256 + b1) * 256 + b2) * 16 + b3 div 16)"
    and pos: "0 \<le> ((b0 * 256 + b1) * 256 + b2) * 16 + b3 div 16"
    using hashNumber_value [of key user] by blast
  define bucket where "bucket = (((b0 * 256 + b1) * 256 + b2) * 16 + b3 div 16) mod 100"
  have range: "0 \<le> bucket" "bucket < 100"
    by (simp_all add: bucket_def)
  have loop: "evaluatePercentage L node key user = percentageLoop L bucket 0 percentageRules"
    using assms(1,2) num pos by (simp add: evaluatePercentage_def go_rem_nonneg bucket_def)
  have first: "\<exists>rule. percentageRules ! i = JObj rule \<and>
      evaluate L (JObj node) key (Some user) =
        Inr (index rule percentageItemValue,
             extractVariationId (index rule percentageItemVariationId))"
    if "i < length percentageRules"
      and "\<forall>j<i. sum_list (map (percentageOf L) (take (Suc j) percentageRules)) \<le> bucket"
      and "bucket < sum_list (map (percentageOf L) (take (Suc i) percentageRules))"
    for i
  proof -
    from that(2,3) have
      "\<forall>j<i. 0 + sum_list (map (percentageOf L) (take (Suc j) percentageRules)) \<le> bucket"
      "bucket < 0 + sum_list (map (percentageOf L) (take (Suc i) percentageRules))"
      by simp_all
    with percentageLoop_first [where bucket = 0, OF assms(4) order_refl range(1) range(2) that(1)]
    obtain rule where "percentageRules ! i = JObj rule"
      "percentageLoop L bucket 0 percentageRules =
        Some (index rule percentageItemValue,
              extractVariationId (index rule percentageItemVariationId))"
      by auto
    with loop assms(3) show ?thesis
      by (simp add: evaluate_def)
  qed
  from sum num range first show ?thesis
    unfolding bucket_def by blast
qed

lemma replicate_numeral_eval: "replicate (numeral k) x = x # replicate (pred_numeral k) x"
  by (simp add: numeral_eq_Suc)

lemma schedule_numeral:
  "schedule (numeral k) w =
     schedule (pred_numeral k) (rotl 1 (w ! 2 XOR w ! 7 XOR w ! 13 XOR w ! 15) # w)"
  by (simp add: numeral_eq_Suc)

lemmas sha1_eval =
  sha1_Sum_def sha1_pad_def replicate_numeral_eval blocks.simps block_def schedule_numeral
  rounds80_def rotl_def add32_def not32_def be_bytes_def

text \<open>The digest of \<open>abc\<close>, as FIPS 180 gives it.\<close>

lemma sha1_Sum_abc:
  "hex_EncodeToString (sha1_Sum ''abc'') = ''a9993e364706816aba3e25717850c26c9cd0d89d''"
  by (simp add: sha1_eval hex_EncodeToString_def hextable_def)

text \<open>The SHA-1 of \<open>keyu1\<close> is \<open>d8cf4e65...\<close>; its first seven digits are the number
  227341542, and the bucket is 42.\<close>

lemma hashNumber_key_u1: "hashNumber ''key'' (userWith x) = Some 227341542"
  by (simp add: hashNumber_def userWith_def sha1_eval hex_EncodeToString_def hextable_def
      ParseInt16_def hexDigit_def)

definition threePercentages :: "json list" where
  "threePercentages =
     [JObj (percentageRule 0 (JStr ''a'') ''ida''), JObj (percentageRule 42 (JStr ''b'') ''idb''),
      JObj (percentageRule 58 (JStr ''c'') ''idc'')]"

theorem percentage_bucket_witness:
  "evaluate plainLib (JObj (settingNode [] threePercentages)) ''key'' (Some (userWith ''alpha'')) =
     Inr (JStr ''c'', ''idc'') \<and>
   hashNumber ''key'' (userWith ''alpha'') = Some 227341542"
proof -
  let ?node = "settingNode [] threePercentages"
  let ?w = "percentageOf plainLib"
  have w: "map ?w threePercentages = [0, 42, 58]"
    by (simp add: threePercentages_def percentageOf_def document_defs int64_def truncateFloat_def)
  have rules: "index ?node settingRolloutPercentageItems = JArr threePercentages"
    "threePercentages \<noteq> []"
    "evaluateRollout plainLib ?node (userWith ''alpha'') = Inr None"
    by (simp_all add: document_defs evaluateRollout_def threePercentages_def)
  have range: "\<forall>r\<in>set threePercentages. 0 \<le> ?w r \<and> ?w r \<le> 100"
  proof -
    have "\<forall>p\<in>set (map ?w threePercentages). 0 \<le> p \<and> p \<le> 100"
      by (simp only: w) simp
    then show ?thesis by simp
  qed
  obtain b0 b1 b2 b3 rest bucket where
    num: "hashNumber ''key'' (userWith ''alpha'') =
      Some (((b0 * 256 + b1) * 256 + b2) * 16 + b3 div 16)"
    and bucket: "bucket = (((b0 * 256 + b1) * 256 + b2) * 16 + b3 div 16) mod 100"
    and first: "\<forall>i<length threePercentages.
        (\<forall>j<i. sum_list (map ?w (take (Suc j) threePercentages)) \<le> bucket) \<longrightarrow>
        bucket < sum_list (map ?w (take (Suc i) threePercentages)) \<longrightarrow>
        (\<exists>rule. threePercentages ! i = JObj rule \<and>
           evaluate plainLib (JObj ?node) ''key'' (Some (userWith ''alpha'')) =
             Inr (index rule percentageItemValue,
                  extractVariationId (index rule percentageItemVariationId)))"
    using percentage_bucket [OF rules range, of "''key''"] by blast
  from num have "((b0 * 256 + b1) * 256 + b2) * 16 + b3 div 16 = 227341542"
    by (simp add: hashNumber_key_u1)
  with bucket have b42: "bucket = 42"
    by simp
  have sums: "sum_list (map ?w (take (Suc j) threePercentages)) =
      sum_list (take (Suc j) [0, 42, 58])" for j
    by (simp only: take_map [symmetric] w)
  have "\<forall>j<2. sum_list (map ?w (take (Suc j) threePercentages)) \<le> bucket"
    unfolding sums b42 by (simp add: less_Suc_eq numeral_2_eq_2)
  moreover have "bucket < sum_list (map ?w (take (Suc 2) threePercentages))"
    unfolding sums b42 by simp
  moreover have "2 < length threePercentages"
    by (simp add: threePercentages_def)
  ultimately obtain rule where "threePercentages ! 2 = JObj rule"
    and result: "evaluate plainLib (JObj ?node) ''key'' (Some (userWith ''alpha'')) =
       Inr (index rule percentageItemValue,
            extractVariationId (index rule percentageItemVariationId))"
    using first by blast
  then have "rule = percentageRule 58 (JStr ''c'') ''idc''"
    by (simp add: threePercentages_def)
  with result have "evaluate plainLib (JObj ?node) ''key'' (Some (userWith ''alpha'')) =
      Inr (JStr ''c'', ''idc'')"
    by (simp add: document_defs)
  then show ?thesis
    by (simp add: hashNumber_key_u1)
qed


section \<open>A comparator outside the table\<close>

text \<open>The log line of a rule that does not match reads the text of its comparator, so
  a rule with a comparator that is none of the eighteen makes \<open>evaluate\<close> panic.\<close>

lemma comparator_outside_table:
  "evaluateRule plainLib (userWith ''alpha'') (JObj (targetingRule 99 ''alpha'' v i)) =
     Inl (IndexOutOfRange 99)"
  by (simp add: rule_eval document_defs)

text \<open>A rule on the attribute \<open>country\<close>, which the user does not have, with the
  comparator 18; a rule on the attribute \<open>x\<close> with the comparator 99; and the rule
  \<open>CONTAINS lph\<close> on the attribute \<open>x\<close>, which the user's value \<open>alpha\<close> matches.\<close>

definition absentAttributeRule :: json where
  "absentAttributeRule =
     JObj ((targetingRule 18 ''al'' (JStr ''first'') ''id1'')(''a'' \<mapsto> JStr ''country''))"

definition unknownComparatorRule :: json where
  "unknownComparatorRule = JObj (targetingRule 99 ''beta'' (JStr ''first'') ''id1'')"

definition containsRule :: json where
  "containsRule = JObj (targetingRule 2 ''lph'' (JStr ''second'') ''id2'')"

text \<open>
  C7. \<open>evaluate\<close> should take the targeting rules in the order of the document, return
  the value and the variation id of the first rule whose comparator test succeeds, and
  pass over a rule whose attribute the user does not have, going on with the rules after
  it. The code does so only for a comparator that has a text in the table: for the user
  with \<open>x = alpha\<close>, the node whose only rule is \<open>CONTAINS lph\<close> evaluates to that
  rule's value, but with the rule on the absent attribute \<open>country\<close> and the comparator
  18 before it, \<open>evaluate\<close> panics in the log line of the rule that it passes over, and
  so it does with a rule of comparator 99 that does not match before it. The later rule
  is not reached in either case.
\<close>

theorem absent_attribute_outside_table_panics:
  "evaluate L (JObj (settingNode [containsRule] [])) ''key'' (Some (userWith ''alpha'')) =
     Inr (JStr ''second'', ''id2'') \<and>
   evaluate L (JObj (settingNode [absentAttributeRule, containsRule] [])) ''key''
     (Some (userWith ''alpha'')) = Inl (IndexOutOfRange 18) \<and>
   evaluate L (JObj (settingNode [unknownComparatorRule, containsRule] [])) ''key''
     (Some (userWith ''alpha'')) = Inl (IndexOutOfRange 99)"
proof -
  have found: "evaluateRule L (userWith ''alpha'') containsRule =
      Inr (Some (JStr ''second'', ''id2''))"
    by (simp add: containsRule_def rule_eval document_defs)
  have absent: "evaluateRule L (userWith ''alpha'') absentAttributeRule =
      Inl (IndexOutOfRange 18)"
    by (simp add: absentAttributeRule_def rule_eval document_defs)
  have unknown: "evaluateRule L (userWith ''alpha'') unknownComparatorRule =
      Inl (IndexOutOfRange 99)"
    by (simp add: unknownComparatorRule_def rule_eval document_defs)
  have rules: "evaluateRollout L (settingNode rolloutRules []) u = rolloutLoop L u rolloutRules"
    for rolloutRules u
    by (simp add: evaluateRollout_def settingNode_def field_names index_def)
  from found absent unknown show ?thesis
    by (simp add: evaluate_def rules)
qed

end
